theory Spec2Isabelle
  imports Complex_Main
begin

section \<open>JavaScript numbers\<close>

text \<open>
  Coordinates, radii and distances are JavaScript numbers. A finite number is modelled as a
  real: the rounding of IEEE doubles and the sign of zero are not part of the model, except
  on the weight lookup of \<open>updateCrowdZones\<close>, which has a section of its own with the
  rounding written out.
  The non-finite values are kept where the code can produce or receive them: a division
  by a zero length yields \<open>NaN\<close> or an infinity, and the click handler tests its
  arguments with \<open>isNaN\<close> and range comparisons.
\<close>

datatype jsnum = Num real | PosInf | NegInf | NaN

text \<open>\<open>a < b\<close>: every comparison with \<open>NaN\<close> is false.\<close>

fun js_lt :: "jsnum \<Rightarrow> jsnum \<Rightarrow> bool" where
  "js_lt NaN b = False"
| "js_lt a NaN = False"
| "js_lt (Num a) (Num b) = (a < b)"
| "js_lt (Num a) PosInf = True"
| "js_lt (Num a) NegInf = False"
| "js_lt PosInf b = False"
| "js_lt NegInf NegInf = False"
| "js_lt NegInf b = True"

definition js_gt :: "jsnum \<Rightarrow> jsnum \<Rightarrow> bool" where
  "js_gt a b = js_lt b a"

definition js_le :: "jsnum \<Rightarrow> jsnum \<Rightarrow> bool" where
  "js_le a b = (a \<noteq> NaN \<and> b \<noteq> NaN \<and> \<not> js_lt b a)"

fun js_sign :: "jsnum \<Rightarrow> real" where
  "js_sign (Num a) = sgn a"
| "js_sign PosInf = 1"
| "js_sign NegInf = - 1"
| "js_sign NaN = 0"

text \<open>The infinity of a given sign; sign zero stands for \<open>0 * Infinity\<close> and \<open>0 / 0\<close>.\<close>

definition inf_of_sign :: "real \<Rightarrow> jsnum" where
  "inf_of_sign s = (if s = 0 then NaN else if 0 < s then PosInf else NegInf)"

fun js_add :: "jsnum \<Rightarrow> jsnum \<Rightarrow> jsnum" where
  "js_add NaN b = NaN"
| "js_add a NaN = NaN"
| "js_add (Num a) (Num b) = Num (a + b)"
| "js_add PosInf NegInf = NaN"
| "js_add NegInf PosInf = NaN"
| "js_add PosInf b = PosInf"
| "js_add NegInf b = NegInf"
| "js_add (Num a) b = b"

fun js_mul :: "jsnum \<Rightarrow> jsnum \<Rightarrow> jsnum" where
  "js_mul NaN b = NaN"
| "js_mul a NaN = NaN"
| "js_mul (Num a) (Num b) = Num (a * b)"
| "js_mul a b = inf_of_sign (js_sign a * js_sign b)"

fun js_div :: "jsnum \<Rightarrow> jsnum \<Rightarrow> jsnum" where
  "js_div NaN b = NaN"
| "js_div a NaN = NaN"
| "js_div (Num a) (Num b) = (if b = 0 then inf_of_sign (sgn a) else Num (a / b))"
| "js_div (Num a) b = Num 0"
| "js_div a (Num b) = inf_of_sign (js_sign a * (if b < 0 then - 1 else 1))"
| "js_div a b = NaN"

text \<open>\<open>x || 0\<close> on a number: \<open>NaN\<close> and \<open>0\<close> are the falsy numbers.\<close>

definition js_or_zero :: "jsnum \<Rightarrow> jsnum" where
  "js_or_zero x = (if x = NaN \<or> x = Num 0 then Num 0 else x)"

text \<open>A value handed to the click handler: a number, or anything whose \<open>typeof\<close> is
  not \<open>'number'\<close>.\<close>

datatype jsval = Number jsnum | NotANumber

section \<open>The population grid (class \<open>DynamicPopulationGrid\<close>)\<close>

type_synonym point = "real \<times> real"

record populatedArea =
  area_lat :: real
  area_lng :: real
  area_population :: int

record crowdZone =
  center :: point
  radius :: real
  population :: int
  weight :: int

text \<open>
  \<open>populations\<close> is a JavaScript \<open>Map\<close>: it iterates in insertion order, and setting a
  key that is present keeps its position. It is an association list here. The key of
  the source is the string \<open>`${gridLat},${gridLng}`\<close>, which \<open>getPopulatedAreas\<close> parses
  back into the two numbers; the model keeps the pair of numbers.
\<close>

record grid =
  populations :: "(point \<times> int) list"
  crowdZones :: "crowdZone list"

text \<open>\<open>this.gridSize\<close> is set by the constructor and never assigned again.\<close>

definition gridSize :: real where
  "gridSize = 0.0005"

definition newGrid :: grid where
  "newGrid = \<lparr>populations = [], crowdZones = []\<rparr>"

fun map_set :: "('k \<times> 'v) list \<Rightarrow> 'k \<Rightarrow> 'v \<Rightarrow> ('k \<times> 'v) list" where
  "map_set [] k v = [(k, v)]"
| "map_set ((k', v') # m) k v = (if k' = k then (k, v) # m else (k', v') # map_set m k v)"

definition map_get :: "('k \<times> 'v) list \<Rightarrow> 'k \<Rightarrow> 'v option" where
  "map_get m k = map_of m k"

text \<open>The key over exact reals: \<open>floor(coord / gridSize) * gridSize\<close> without rounding.\<close>

definition getGridKey :: "real \<Rightarrow> real \<Rightarrow> point" where
  "getGridKey lat lng =
     (let gridLat = of_int \<lfloor>lat / gridSize\<rfloor> * gridSize;
          gridLng = of_int \<lfloor>lng / gridSize\<rfloor> * gridSize
      in (gridLat, gridLng))"

text \<open>\<open>this.populations.get(key) || 0\<close>: an absent key and a stored zero both give 0.\<close>

definition get_or_zero :: "(point \<times> int) list \<Rightarrow> point \<Rightarrow> int" where
  "get_or_zero m k = (case map_get m k of None \<Rightarrow> 0 | Some p \<Rightarrow> (if p = 0 then 0 else p))"

definition getPopulation :: "grid \<Rightarrow> real \<Rightarrow> real \<Rightarrow> int" where
  "getPopulation g lat lng = get_or_zero (populations g) (getGridKey lat lng)"

definition getPopulatedAreas :: "grid \<Rightarrow> populatedArea list" where
  "getPopulatedAreas g =
     [\<lparr>area_lat = fst k, area_lng = snd k, area_population = p\<rparr>. (k, p) \<leftarrow> populations g, p > 0]"

definition getRoutingWeight :: "grid \<Rightarrow> real \<Rightarrow> real \<Rightarrow> int" where
  "getRoutingWeight g lat lng =
     (let p = getPopulation g lat lng
      in if p = 0 then 1
         else if p < 3 then 2
         else if p < 6 then 5
         else if p < 10 then 10
         else 20)"

definition updateCrowdZones :: "grid \<Rightarrow> grid" where
  "updateCrowdZones g =
     g\<lparr>crowdZones :=
         [\<lparr>center = (area_lat a, area_lng a),
           radius = max 0.001 (of_int (area_population a) * 0.0003),
           population = area_population a,
           weight = getRoutingWeight g (area_lat a) (area_lng a)\<rparr>.
          a \<leftarrow> getPopulatedAreas g, area_population a \<ge> 3]\<rparr>"

text \<open>\<open>addPerson\<close> returns the new population of the cell together with the new grid.
  It has no failing branch.\<close>

definition addPerson :: "grid \<Rightarrow> real \<Rightarrow> real \<Rightarrow> int \<Rightarrow> int \<times> grid" where
  "addPerson g lat lng count =
     (let key = getGridKey lat lng;
          current = get_or_zero (populations g) key;
          g' = g\<lparr>populations := map_set (populations g) key (current + count)\<rparr>
      in (current + count, updateCrowdZones g'))"

definition clearAll :: "grid \<Rightarrow> grid" where
  "clearAll g = g\<lparr>populations := [], crowdZones := []\<rparr>"

text \<open>The distance test of \<open>isPointInCrowdZone\<close> and \<open>analyzeCrowdIntersections\<close>:
  \<open>Math.sqrt(Math.pow(p[0] - c[0], 2) + Math.pow(p[1] - c[1], 2)) <= zone.radius\<close>.\<close>

definition distance :: "point \<Rightarrow> point \<Rightarrow> real" where
  "distance p c = sqrt ((fst p - fst c)\<^sup>2 + (snd p - snd c)\<^sup>2)"

definition inZone :: "point \<Rightarrow> crowdZone \<Rightarrow> bool" where
  "inZone p z = (distance p (center z) \<le> radius z)"

fun firstZoneContaining :: "point \<Rightarrow> crowdZone list \<Rightarrow> crowdZone option" where
  "firstZoneContaining p [] = None"
| "firstZoneContaining p (z # zs) = (if inZone p z then Some z else firstZoneContaining p zs)"

definition isPointInCrowdZone :: "grid \<Rightarrow> point \<Rightarrow> crowdZone option" where
  "isPointInCrowdZone g p = firstZoneContaining p (crowdZones g)"

text \<open>
  The right-click handler \<open>handleAddPerson\<close> of the component: it returns without
  touching the grid when an argument is not a number, is \<open>NaN\<close> or is out of range, and
  otherwise adds one person. After the range test both numbers are finite.
\<close>

fun handleAddPerson :: "grid \<Rightarrow> jsval \<Rightarrow> jsval \<Rightarrow> grid" where
  "handleAddPerson g (Number lat) (Number lng) =
     (if lat = NaN \<or> lng = NaN \<or>
         js_lt lat (Num (- 90)) \<or> js_gt lat (Num 90) \<or>
         js_lt lng (Num (- 180)) \<or> js_gt lng (Num 180)
      then g
      else (case (lat, lng) of
              (Num a, Num b) \<Rightarrow> snd (addPerson g a b 1)
            | _ \<Rightarrow> g))"
| "handleAddPerson g _ _ = g"

text \<open>Histories of grid mutations, starting from the constructor's empty grid.\<close>

datatype mutation = AddPerson real real int | ClearAll

fun mutate :: "grid \<Rightarrow> mutation \<Rightarrow> grid" where
  "mutate g (AddPerson lat lng count) = snd (addPerson g lat lng count)"
| "mutate g ClearAll = clearAll g"

definition run :: "mutation list \<Rightarrow> grid" where
  "run ms = foldl mutate newGrid ms"

section \<open>The weight lookup of \<open>updateCrowdZones\<close> in IEEE double arithmetic\<close>

text \<open>
  \<open>getGridKey\<close> above computes over exact reals, where quantizing a stored key gives the
  key back. The code computes in binary64, and \<open>updateCrowdZones\<close> reads the weight of a
  cell with \<open>getRoutingWeight(area.lat, area.lng)\<close>, which quantizes the stored key again.
  This section models that path with its rounding: \<open>double x\<close> is the binary64 value
  nearest to \<open>x\<close>, ties to even, for \<open>x\<close> in the normal range (overflow and subnormal
  numbers are not modelled). A decimal literal, a division and a multiplication each
  round once; \<open>Math.floor\<close>, \<open>Math.max\<close> and the addition of small integers are exact.
\<close>

definition round_even :: "real \<Rightarrow> int" where
  "round_even y =
     (let f = \<lfloor>y\<rfloor>; d = y - of_int f
      in if d < 1 / 2 then f
         else if 1 / 2 < d then f + 1
         else if even f then f else f + 1)"

definition double :: "real \<Rightarrow> real" where
  "double x =
     (if x = 0 then 0
      else (let ulp = 2 powr (of_int \<lfloor>log 2 \<bar>x\<bar>\<rfloor> - 52)
            in of_int (round_even (x / ulp)) * ulp))"

definition gridSize_ieee :: real where
  "gridSize_ieee = double 0.0005"

definition getGridKey_ieee :: "real \<Rightarrow> real \<Rightarrow> point" where
  "getGridKey_ieee lat lng =
     (let gridLat = double (of_int \<lfloor>double (lat / gridSize_ieee)\<rfloor> * gridSize_ieee);
          gridLng = double (of_int \<lfloor>double (lng / gridSize_ieee)\<rfloor> * gridSize_ieee)
      in (gridLat, gridLng))"

definition getPopulation_ieee :: "grid \<Rightarrow> real \<Rightarrow> real \<Rightarrow> int" where
  "getPopulation_ieee g lat lng = get_or_zero (populations g) (getGridKey_ieee lat lng)"

definition getRoutingWeight_ieee :: "grid \<Rightarrow> real \<Rightarrow> real \<Rightarrow> int" where
  "getRoutingWeight_ieee g lat lng =
     (let p = getPopulation_ieee g lat lng
      in if p = 0 then 1
         else if p < 3 then 2
         else if p < 6 then 5
         else if p < 10 then 10
         else 20)"

definition updateCrowdZones_ieee :: "grid \<Rightarrow> grid" where
  "updateCrowdZones_ieee g =
     g\<lparr>crowdZones :=
         [\<lparr>center = (area_lat a, area_lng a),
           radius = max (double 0.001) (double (of_int (area_population a) * double 0.0003)),
           population = area_population a,
           weight = getRoutingWeight_ieee g (area_lat a) (area_lng a)\<rparr>.
          a \<leftarrow> getPopulatedAreas g, area_population a \<ge> 3]\<rparr>"

definition addPerson_ieee :: "grid \<Rightarrow> real \<Rightarrow> real \<Rightarrow> int \<Rightarrow> int \<times> grid" where
  "addPerson_ieee g lat lng count =
     (let key = getGridKey_ieee lat lng;
          current = get_or_zero (populations g) key;
          g' = g\<lparr>populations := map_set (populations g) key (current + count)\<rparr>
      in (current + count, updateCrowdZones_ieee g'))"

section \<open>The router (class \<open>DynamicOSRMRouter\<close>)\<close>

type_synonym route = "point list"

record worstZoneInfo =
  zone :: crowdZone
  intersectionRatio :: jsnum
  intersectionPoints :: nat

record intersectionReport =
  totalIntersection :: jsnum
  worstZone :: "worstZoneInfo option"
  averageIntersection :: jsnum

text \<open>The inner loop of \<open>analyzeCrowdIntersections\<close>: the number of route points
  inside one zone.\<close>

definition countPoints :: "route \<Rightarrow> crowdZone \<Rightarrow> nat" where
  "countPoints r z = length (filter (\<lambda>p. inZone p z) r)"

text \<open>One pass of the outer loop, on the pair \<open>(totalIntersection, worstZone)\<close>.
  \<open>intersectionPoints / route.length\<close> is \<open>0 / 0 = NaN\<close> for an empty route.\<close>

fun zoneStep :: "route \<Rightarrow> jsnum \<times> worstZoneInfo option \<Rightarrow> crowdZone
                 \<Rightarrow> jsnum \<times> worstZoneInfo option" where
  "zoneStep r (acc, worst) z =
     (let points = countPoints r z;
          ratio = js_div (Num (real points)) (Num (real (length r)));
          acc' = js_add acc (js_mul ratio (Num (of_int (weight z))));
          this = \<lparr>zone = z, intersectionRatio = ratio, intersectionPoints = points\<rparr>
      in (acc',
          (case worst of
             None \<Rightarrow> Some this
           | Some w \<Rightarrow> if js_gt ratio (intersectionRatio w) then Some this else Some w)))"

definition analyzeCrowdIntersections :: "route \<Rightarrow> crowdZone list \<Rightarrow> intersectionReport" where
  "analyzeCrowdIntersections r zones =
     (let (acc, worst) = foldl (zoneStep r) (Num 0, None) zones
      in \<lparr>totalIntersection = acc,
          worstZone = worst,
          averageIntersection = js_or_zero (js_div acc (Num (real (length zones))))\<rparr>)"

text \<open>\<open>Array.prototype.reduce\<close> without an initial value: the first element starts the
  accumulator; on an empty array it throws a \<open>TypeError\<close> (\<open>None\<close>).\<close>

fun reduce :: "('a \<Rightarrow> 'a \<Rightarrow> 'a) \<Rightarrow> 'a list \<Rightarrow> 'a option" where
  "reduce f [] = None"
| "reduce f (x # xs) = Some (foldl f x xs)"

text \<open>The reduction at the head of \<open>getAvoidanceRoute\<close>.\<close>

definition findWorstZone :: "crowdZone list \<Rightarrow> crowdZone option" where
  "findWorstZone zones =
     reduce (\<lambda>worst current. if weight current > weight worst then current else worst) zones"

definition createAvoidanceWaypoints :: "point \<Rightarrow> point \<Rightarrow> crowdZone \<Rightarrow> point list" where
  "createAvoidanceWaypoints start end z =
     (let dx = fst end - fst start;
          dy = snd end - snd start;
          len = sqrt (dx * dx + dy * dy)
      in if len = 0 then []
         else (let perpX = - dy / len;
                   perpY = dx / len
               in map (\<lambda>d. (fst (center z) + perpX * d, snd (center z) + perpY * d))
                      [0.002, 0.004, 0.006]))"

text \<open>
  The routing provider is external. A response carries its \<open>code\<close> and, for each route,
  the \<open>geometry.coordinates\<close> list, longitude first. A provider takes the request
  coordinates (longitude first, as joined into the URL) and the \<open>alternatives\<close> flag;
  \<open>None\<close> stands for a failed \<open>fetch\<close> or an unparsable body.
\<close>

record osrmResponse =
  code :: string
  routes :: "point list list"

type_synonym provider = "point list \<Rightarrow> bool \<Rightarrow> osrmResponse option"

text \<open>\<open>[p[1], p[0]]\<close>: the swap written at every crossing of the provider boundary.\<close>

definition swapCoord :: "point \<Rightarrow> point" where
  "swapCoord p = (snd p, fst p)"

definition toProvider :: "route \<Rightarrow> point list" where
  "toProvider r = map swapCoord r"

definition fromProvider :: "point list \<Rightarrow> route" where
  "fromProvider cs = map swapCoord cs"

text \<open>
  The three requests. Every failure inside their \<open>try\<close> blocks is caught and gives \<open>null\<close>
  (\<open>None\<close>): a failed \<open>fetch\<close>, a code other than \<open>'Ok'\<close>, the \<open>TypeError\<close> of
  \<open>data.routes[0].geometry\<close> on an empty route list, and in \<open>getAvoidanceRoute\<close> the
  \<open>TypeError\<close> of the reduction on an empty zone list.
\<close>

definition getRoadRoute :: "provider \<Rightarrow> point \<Rightarrow> point \<Rightarrow> route option" where
  "getRoadRoute fetch start end =
     (case fetch (toProvider [start, end]) False of
        None \<Rightarrow> None
      | Some data \<Rightarrow>
          if code data \<noteq> ''Ok'' then None
          else (case routes data of [] \<Rightarrow> None | r0 # rest \<Rightarrow> Some (fromProvider r0)))"

definition getAvoidanceRoute :: "provider \<Rightarrow> point \<Rightarrow> point \<Rightarrow> crowdZone list \<Rightarrow> route option" where
  "getAvoidanceRoute fetch start end zones =
     (case findWorstZone zones of
        None \<Rightarrow> None
      | Some worst \<Rightarrow>
          (let avoidancePoints = createAvoidanceWaypoints start end worst
           in case fetch (toProvider ([start] @ avoidancePoints @ [end])) False of
                None \<Rightarrow> None
              | Some data \<Rightarrow>
                  if code data \<noteq> ''Ok'' then None
                  else (case routes data of [] \<Rightarrow> None | r0 # rest \<Rightarrow> Some (fromProvider r0))))"

definition getAlternativeRoute :: "provider \<Rightarrow> point \<Rightarrow> point \<Rightarrow> route option" where
  "getAlternativeRoute fetch start end =
     (case fetch (toProvider [start, end]) True of
        None \<Rightarrow> None
      | Some data \<Rightarrow>
          if code data \<noteq> ''Ok'' then None
          else (case routes data of
                  r0 # r1 # rest \<Rightarrow> Some (fromProvider r1)
                | _ \<Rightarrow> None))"

text \<open>A candidate \<open>{route, type, crowdIntersections}\<close>; the field \<open>type\<close>, one of
  \<open>'direct'\<close>, \<open>'avoidance'\<close> and \<open>'alternative'\<close>, is \<open>kind\<close> here.\<close>

datatype routeKind = Direct | Avoidance | Alternative

record candidate =
  route :: route
  kind :: routeKind
  crowdIntersections :: intersectionReport

text \<open>\<open>if (route) routes.push({...})\<close>: \<open>null\<close> is skipped; an array, also the empty one,
  is truthy and is pushed with its report.\<close>

definition pushRoute :: "routeKind \<Rightarrow> crowdZone list \<Rightarrow> route option \<Rightarrow> candidate list" where
  "pushRoute k zones r =
     (case r of
        None \<Rightarrow> []
      | Some rt \<Rightarrow> [\<lparr>route = rt, kind = k, crowdIntersections = analyzeCrowdIntersections rt zones\<rparr>])"

definition getMultipleRoutes :: "provider \<Rightarrow> point \<Rightarrow> point \<Rightarrow> crowdZone list \<Rightarrow> candidate list" where
  "getMultipleRoutes fetch start end zones =
     pushRoute Direct zones (getRoadRoute fetch start end)
     @ (if length zones > 0 then pushRoute Avoidance zones (getAvoidanceRoute fetch start end zones)
        else [])
     @ pushRoute Alternative zones (getAlternativeRoute fetch start end)"

section \<open>Route selection (\<open>calculateRoute\<close> of the component)\<close>

record routeInfo =
  totalPoints :: nat
  crowdedPoints :: nat
  averageWeight :: real
  totalDistance :: real
  efficiency :: real
  routeType :: routeKind
  crowdIntersection :: jsnum

text \<open>The part of the component state that \<open>calculateRoute\<close> writes; \<open>routeInfo = None\<close>
  is \<open>setRouteInfo(null)\<close>.\<close>

record routeState =
  currentRoute :: route
  routeInfo :: "routeInfo option"

text \<open>The reduction that \<open>calculateRoute\<close> calls \<open>bestRoute\<close>; it is reached only for a
  candidate list that is not empty.\<close>

definition selectBest :: "candidate list \<Rightarrow> candidate option" where
  "selectBest cs =
     reduce (\<lambda>best current.
               if js_lt (totalIntersection (crowdIntersections current))
                        (totalIntersection (crowdIntersections best))
               then current else best) cs"

text \<open>The statistics object passed to \<open>setRouteInfo\<close>.\<close>

definition routeStatistics :: "grid \<Rightarrow> candidate \<Rightarrow> routeInfo" where
  "routeStatistics g best =
     (let r = route best;
          n = length r;
          crowded = length (filter (\<lambda>p. getRoutingWeight g (fst p) (snd p) > 2) r);
          avg = (if length r > 0
                 then of_int (foldl (\<lambda>s p. s + getRoutingWeight g (fst p) (snd p)) 0 r) / real (length r)
                 else 0);
          dist = foldl (\<lambda>s i. if i = 0 then 0
                               else s + distance (r ! i) (r ! (i - 1)) * 111000) 0 [0..<length r]
      in \<lparr>totalPoints = n,
          crowdedPoints = crowded,
          averageWeight = avg,
          totalDistance = dist,
          efficiency = (if n > 0 then max 0 (100 - real crowded / real n * 100) else 0),
          routeType = kind best,
          crowdIntersection = totalIntersection (crowdIntersections best)\<rparr>)"

text \<open>The branch of \<open>calculateRoute\<close> on \<open>routes.length > 0\<close>: the best route and its
  statistics, or \<open>setCurrentRoute([])\<close> and \<open>setRouteInfo(null)\<close>.\<close>

definition chooseRoute :: "grid \<Rightarrow> candidate list \<Rightarrow> routeState" where
  "chooseRoute g cs =
     (case selectBest cs of
        Some best \<Rightarrow> \<lparr>currentRoute = route best, routeInfo = Some (routeStatistics g best)\<rparr>
      | None \<Rightarrow> \<lparr>currentRoute = [], routeInfo = None\<rparr>)"

text \<open>\<open>calculateRoute\<close> returns at once, changing nothing, when start or end is not set.\<close>

definition calculateRoute :: "provider \<Rightarrow> grid \<Rightarrow> point option \<Rightarrow> point option
                               \<Rightarrow> routeState \<Rightarrow> routeState" where
  "calculateRoute fetch g start end st =
     (case (start, end) of
        (Some s, Some e) \<Rightarrow> chooseRoute g (getMultipleRoutes fetch s e (crowdZones g))
      | _ \<Rightarrow> st)"

section \<open>Specification-side definitions and example inputs\<close>

text \<open>The weight of a population as the specification words it: 1 for zero, 2 for 1 to 2,
  5 for 3 to 5, 10 for 6 to 9, 20 from 10 on.\<close>

definition spec_weight :: "int \<Rightarrow> int" where
  "spec_weight p = (if 10 \<le> p then 20 else if 6 \<le> p then 10 else if 3 \<le> p then 5 else if 1 \<le> p then 2 else 1)"

text \<open>The zone that the specification derives from a cell with key \<open>k\<close> and population \<open>p\<close>.\<close>

definition spec_zone :: "point \<Rightarrow> int \<Rightarrow> crowdZone" where
  "spec_zone k p = \<lparr>center = k, radius = max 0.001 (of_int p * 0.0003), population = p, weight = spec_weight p\<rparr>"

text \<open>One zone for each cell of population at least 3, in the order of the cells.\<close>

definition spec_zones :: "(point \<times> int) list \<Rightarrow> crowdZone list" where
  "spec_zones m = [spec_zone k p. (k, p) \<leftarrow> m, 3 \<le> p]"

text \<open>The invariant of the cell map: no key occurs twice, and every key is a quantized
  coordinate pair, so quantizing it again gives it back.\<close>

definition cells_ok :: "(point \<times> int) list \<Rightarrow> bool" where
  "cells_ok m = (distinct (map fst m) \<and> (\<forall>k \<in> set (map fst m). getGridKey (fst k) (snd k) = k))"

text \<open>The sum over the zones of ratio times weight, for a route that is not empty.\<close>

definition ratioSum :: "route \<Rightarrow> crowdZone list \<Rightarrow> real" where
  "ratioSum r zones = (\<Sum>z\<leftarrow>zones. real (countPoints r z) / real (length r) * of_int (weight z))"

text \<open>Example inputs for the closed theorems below.\<close>

definition z0 :: crowdZone where
  "z0 = \<lparr>center = (0, 0), radius = 0.001, population = 3, weight = 5\<rparr>"

definition z20 :: crowdZone where
  "z20 = \<lparr>center = (0, 0), radius = 0.003, population = 10, weight = 20\<rparr>"

definition r10 :: route where
  "r10 = [(0, 0), (0.001, 0), (0, 0.001), (0.002, 0), (0, 0.002), (1, 0), (0, 1), (1, 1), (2, 0), (0, 2)]"

definition g2 :: grid where "g2 = run [AddPerson 0 0 10, AddPerson 0.0005 0 10]"

text \<open>A provider that answers every request with the request coordinates as its only route.\<close>

definition echoProvider :: provider where
  "echoProvider cs alternatives = Some \<lparr>code = ''Ok'', routes = [cs]\<rparr>"

definition zA :: crowdZone where
  "zA = \<lparr>center = (0.0005, 0), radius = 0.003, population = 12, weight = 20\<rparr>"

definition zB :: crowdZone where
  "zB = \<lparr>center = (1, 1), radius = 0.003, population = 10, weight = 20\<rparr>"

definition cand :: "route \<Rightarrow> routeKind \<Rightarrow> real \<Rightarrow> candidate" where
  "cand r k t = \<lparr>route = r, kind = k,
     crowdIntersections = \<lparr>totalIntersection = Num t, worstZone = None, averageIntersection = Num 0\<rparr>\<rparr>"

section \<open>Properties\<close>

subsection \<open>Quantization and the cell map\<close>

text \<open>The cell map behaves as a map from keys to populations, and a key quantizes to itself.\<close>

lemma getGridKey_idem:
  "getGridKey (fst (getGridKey a b)) (snd (getGridKey a b)) = getGridKey a b"
  by (simp add: getGridKey_def gridSize_def Let_def)

lemma map_get_set_same: "map_get (map_set m k v) k = Some v"
  by (induction m) (auto simp: map_get_def)

lemma map_get_set_other: "k' \<noteq> k \<Longrightarrow> map_get (map_set m k v) k' = map_get m k'"
  by (induction m) (auto simp: map_get_def)

lemma get_or_zero_set: "get_or_zero (map_set m k v) k' = (if k' = k then v else get_or_zero m k')"
  by (simp add: get_or_zero_def map_get_set_same map_get_set_other)

lemma keys_map_set: "set (map fst (map_set m k v)) = insert k (set (map fst m))"
proof (induction m)
  case Nil
  show ?case by simp
next
  case (Cons x m)
  obtain k' v' where x: "x = (k', v')" by (cases x)
  show ?case using Cons.IH by (cases "k' = k") (simp_all add: x insert_commute)
qed

lemma distinct_map_set: "distinct (map fst m) \<Longrightarrow> distinct (map fst (map_set m k v))"
proof (induction m)
  case Nil
  show ?case by simp
next
  case (Cons x m)
  obtain k' v' where x: "x = (k', v')" by (cases x)
  from Cons.prems have d: "distinct (map fst m)" and n: "k' \<notin> set (map fst m)"
    by (simp_all add: x)
  show ?case
  proof (cases "k' = k")
    case True
    with Cons.prems show ?thesis by (simp add: x)
  next
    case False
    have "k' \<notin> set (map fst (map_set m k v))"
      using n False unfolding keys_map_set by simp
    with Cons.IH [OF d] False show ?thesis by (simp add: x)
  qed
qed

lemma cells_ok_map_set:
  "cells_ok m \<Longrightarrow> cells_ok (map_set m (getGridKey a b) v)"
  unfolding cells_ok_def
  using distinct_map_set [of m "getGridKey a b" v] keys_map_set [of m "getGridKey a b" v] getGridKey_idem [of a b]
  by auto

lemma populations_updateCrowdZones: "populations (updateCrowdZones g) = populations g"
  by (simp add: updateCrowdZones_def)

lemma populations_addPerson:
  "populations (snd (addPerson g lat lng c)) =
     map_set (populations g) (getGridKey lat lng) (getPopulation g lat lng + c)"
  by (simp add: addPerson_def Let_def updateCrowdZones_def getPopulation_def)

lemma fst_addPerson: "fst (addPerson g lat lng c) = getPopulation g lat lng + c"
  by (simp add: addPerson_def Let_def getPopulation_def)

lemma getPopulation_addPerson:
  "getPopulation (snd (addPerson g a b c)) lat lng =
     (if getGridKey lat lng = getGridKey a b then getPopulation g lat lng + c else getPopulation g lat lng)"
  by (simp add: getPopulation_def [of "snd (addPerson g a b c)"] populations_addPerson get_or_zero_set)
     (simp add: getPopulation_def)

lemma get_or_zero_cell:
  "distinct (map fst m) \<Longrightarrow> (k, p) \<in> set m \<Longrightarrow> get_or_zero m k = p"
  by (simp add: get_or_zero_def map_get_def)

lemma getPopulation_newGrid: "getPopulation newGrid lat lng = 0"
  by (simp add: getPopulation_def newGrid_def get_or_zero_def map_get_def)

lemma populations_newGrid: "populations newGrid = []"
  by (simp add: newGrid_def)

lemma run_snoc: "run (ms @ [m]) = mutate (run ms) m"
  by (simp add: run_def)

lemma run_Nil: "run [] = newGrid"
  by (simp add: run_def)

lemma sqrt_le_squares: "0 \<le> x \<Longrightarrow> (sqrt x \<le> r) = (0 \<le> r \<and> x \<le> r\<^sup>2)"
proof (cases "0 \<le> r")
  case True
  assume "0 \<le> x"
  have "(sqrt x \<le> r) = (sqrt x \<le> sqrt (r\<^sup>2))" using True by simp
  also have "\<dots> = (x \<le> r\<^sup>2)" by (rule real_sqrt_le_iff)
  finally show ?thesis using True by simp
next
  case False
  assume "0 \<le> x"
  then have "0 \<le> sqrt x" by simp
  with False have "\<not> sqrt x \<le> r" by linarith
  with False show ?thesis by simp
qed

lemma inZone_squares:
  "inZone p z = (0 \<le> radius z \<and> (fst p - fst (center z))\<^sup>2 + (snd p - snd (center z))\<^sup>2 \<le> (radius z)\<^sup>2)"
  unfolding inZone_def distance_def by (rule sqrt_le_squares) simp

lemma swapCoord_swapCoord: "swapCoord (swapCoord p) = p"
  by (simp add: swapCoord_def)

lemma fromProvider_toProvider: "fromProvider (toProvider r) = r"
  by (induction r) (simp_all add: fromProvider_def toProvider_def swapCoord_swapCoord)

lemma toProvider_fromProvider: "toProvider (fromProvider cs) = cs"
  by (induction cs) (simp_all add: fromProvider_def toProvider_def swapCoord_swapCoord)

subsection \<open>Validation of the arguments of \<open>addPerson\<close>\<close>

lemma handleAddPerson_invalid:
  assumes "\<not> (\<exists>a b. la = Number (Num a) \<and> lo = Number (Num b)
                  \<and> - 90 \<le> a \<and> a \<le> 90 \<and> - 180 \<le> b \<and> b \<le> 180)"
  shows "handleAddPerson g la lo = g"
proof (cases la)
  case NotANumber
  then show ?thesis by simp
next
  case (Number x)
  show ?thesis
  proof (cases lo)
    case NotANumber
    then show ?thesis by (simp add: Number)
  next
    case (Number y)
    with \<open>la = Number x\<close> assms show ?thesis
      by (cases x; cases y) (auto simp: js_gt_def)
  qed
qed

lemma handleAddPerson_valid:
  "- 90 \<le> a \<Longrightarrow> a \<le> 90 \<Longrightarrow> - 180 \<le> b \<Longrightarrow> b \<le> 180 \<Longrightarrow>
     handleAddPerson g (Number (Num a)) (Number (Num b)) = snd (addPerson g a b 1)"
  by (simp add: js_gt_def)

text \<open>Claim C1, as amended. \<open>addPerson\<close> validates nothing and has no failing branch: for every
  \<open>lat\<close>, \<open>lng\<close> and \<open>count\<close>, out of range or non-positive included, it stores the old
  population of the target cell plus \<open>count\<close> and returns that number. The coordinate check
  is in the caller \<open>handleAddPerson\<close>: unless both arguments are finite numbers with
  \<open>lat\<close> in [-90, 90] and \<open>lng\<close> in [-180, 180], it leaves the grid (cells and zones)
  unchanged; otherwise it calls \<open>addPerson\<close> with count 1.\<close>

theorem addPerson_unvalidated:
  "populations (snd (addPerson g lat lng n))
     = map_set (populations g) (getGridKey lat lng) (getPopulation g lat lng + n)
   \<and> fst (addPerson g lat lng n) = getPopulation g lat lng + n
   \<and> getPopulation (snd (addPerson g lat lng n)) lat lng = getPopulation g lat lng + n
   \<and> (\<not> (\<exists>a b. la = Number (Num a) \<and> lo = Number (Num b)
                  \<and> - 90 \<le> a \<and> a \<le> 90 \<and> - 180 \<le> b \<and> b \<le> 180)
        \<longrightarrow> handleAddPerson g la lo = g)
   \<and> (- 90 \<le> a \<and> a \<le> 90 \<and> - 180 \<le> b \<and> b \<le> 180
        \<longrightarrow> handleAddPerson g (Number (Num a)) (Number (Num b)) = snd (addPerson g a b 1))"
  using handleAddPerson_invalid [of la lo g] handleAddPerson_valid [of a b g]
  by (simp add: populations_addPerson fst_addPerson getPopulation_addPerson)

text \<open>Claim C1, witness: a \<open>NaN\<close> latitude and a latitude of 91 leave the grid unchanged, and
  the click at (10, 20) adds one person.\<close>

theorem addPerson_unvalidated_witness:
  "handleAddPerson newGrid (Number NaN) (Number (Num 0)) = newGrid
   \<and> handleAddPerson newGrid (Number (Num 91)) (Number (Num 0)) = newGrid
   \<and> handleAddPerson newGrid (Number (Num 10)) (Number (Num 20)) = snd (addPerson newGrid 10 20 1)"
  using addPerson_unvalidated [of newGrid 0 0 1 "Number NaN" "Number (Num 0)" 10 20]
        addPerson_unvalidated [of newGrid 0 0 1 "Number (Num 91)" "Number (Num 0)" 10 20]
  by simp

text \<open>Claim C1, counterexample to the claim as stated: \<open>addPerson\<close> at latitude 100 returns 1
  and stores the cell instead of failing, and a count of -5 is stored instead of being
  rejected.\<close>

theorem addPerson_accepts_invalid_input:
  "addPerson newGrid 100 0 1 = (1, \<lparr>populations = [((100, 0), 1)], crowdZones = []\<rparr>)
   \<and> addPerson newGrid 0 0 (- 5) = (- 5, \<lparr>populations = [((0, 0), - 5)], crowdZones = []\<rparr>)"
  by (simp add: addPerson_def Let_def getGridKey_def gridSize_def newGrid_def get_or_zero_def map_get_def
        updateCrowdZones_def getPopulatedAreas_def)

subsection \<open>Accumulation of populations\<close>

lemma foldl_mutate_pop:
  "getPopulation (foldl mutate g (map (\<lambda>(a, b, c). AddPerson a b c) calls)) lat lng =
     getPopulation g lat lng + sum_list [c. (a, b, c) \<leftarrow> calls, getGridKey a b = getGridKey lat lng]"
proof (induction calls arbitrary: g)
  case Nil
  show ?case by simp
next
  case (Cons x xs)
  obtain a b c where x: "x = (a, b, c)" by (cases x)
  show ?case by (simp add: x Cons.IH getPopulation_addPerson)
qed

lemma untouched_sum:
  "getGridKey lat lng \<notin> set (map (\<lambda>(a, b, c). getGridKey a b) calls) \<Longrightarrow>
     sum_list [c. (a, b, c) \<leftarrow> calls, getGridKey a b = getGridKey lat lng] = 0"
  by (induction calls) auto

text \<open>Claim C2. After any sequence of \<open>addPerson\<close> calls on a new grid, \<open>getPopulation\<close> at
  \<open>(lat, lng)\<close> is the sum of the counts of the calls whose coordinates quantize to the
  same key; it is 0 when no call touched that cell; \<open>addPerson\<close> returns the new population
  of its cell; the key is \<open>floor(coord / 0.0005) * 0.0005\<close> on each coordinate.\<close>

theorem getPopulation_accumulates:
  "getPopulation (run (map (\<lambda>(a, b, c). AddPerson a b c) calls)) lat lng
     = sum_list [c. (a, b, c) \<leftarrow> calls, getGridKey a b = getGridKey lat lng]
   \<and> (getGridKey lat lng \<notin> set (map (\<lambda>(a, b, c). getGridKey a b) calls)
        \<longrightarrow> getPopulation (run (map (\<lambda>(a, b, c). AddPerson a b c) calls)) lat lng = 0)
   \<and> fst (addPerson g lat lng n) = getPopulation (snd (addPerson g lat lng n)) lat lng
   \<and> fst (addPerson g lat lng n) = getPopulation g lat lng + n
   \<and> getGridKey lat lng = (of_int \<lfloor>lat / 0.0005\<rfloor> * 0.0005, of_int \<lfloor>lng / 0.0005\<rfloor> * 0.0005)"
proof -
  have s: "getPopulation (run (map (\<lambda>(a, b, c). AddPerson a b c) calls)) lat lng
     = sum_list [c. (a, b, c) \<leftarrow> calls, getGridKey a b = getGridKey lat lng]"
    unfolding run_def by (simp add: foldl_mutate_pop getPopulation_newGrid)
  have u: "getGridKey lat lng \<notin> set (map (\<lambda>(a, b, c). getGridKey a b) calls)
        \<longrightarrow> getPopulation (run (map (\<lambda>(a, b, c). AddPerson a b c) calls)) lat lng = 0"
    unfolding s using untouched_sum by blast
  have r: "fst (addPerson g lat lng n) = getPopulation (snd (addPerson g lat lng n)) lat lng"
    by (simp add: fst_addPerson getPopulation_addPerson)
  have k: "getGridKey lat lng = (of_int \<lfloor>lat / 0.0005\<rfloor> * 0.0005, of_int \<lfloor>lng / 0.0005\<rfloor> * 0.0005)"
    by (simp add: getGridKey_def gridSize_def Let_def)
  from s u r k show ?thesis by (simp add: fst_addPerson)
qed

text \<open>Claim C2, witness: two calls into the cell of (0, 0) and one elsewhere.\<close>

theorem getPopulation_accumulates_witness:
  "getPopulation (run [AddPerson 0 0 2, AddPerson 0.0001 0.0002 3, AddPerson 1 1 5]) 0 0 = 5
   \<and> getGridKey 2 2 \<notin> set [getGridKey 0 0, getGridKey 0.0001 0.0002, getGridKey 1 1]
   \<and> getPopulation (run [AddPerson 0 0 2, AddPerson 0.0001 0.0002 3, AddPerson 1 1 5]) 2 2 = 0"
  using getPopulation_accumulates [of "[(0, 0, 2), (0.0001, 0.0002, 3), (1, 1, 5)]" 0 0]
        getPopulation_accumulates [of "[(0, 0, 2), (0.0001, 0.0002, 3), (1, 1, 5)]" 2 2]
  by (simp add: getGridKey_def gridSize_def)

subsection \<open>The routing weight\<close>

text \<open>Claim C3. \<open>getRoutingWeight\<close> is the step function of the cell population with the
  breakpoints 0 -> 1, 1-2 -> 2, 3-5 -> 5, 6-9 -> 10, >= 10 -> 20, and so it is monotonic
  non-decreasing in the population (a count, hence not negative).\<close>

theorem getRoutingWeight_breakpoints:
  "(getPopulation g lat lng = 0 \<longrightarrow> getRoutingWeight g lat lng = 1)
   \<and> (1 \<le> getPopulation g lat lng \<and> getPopulation g lat lng \<le> 2 \<longrightarrow> getRoutingWeight g lat lng = 2)
   \<and> (3 \<le> getPopulation g lat lng \<and> getPopulation g lat lng \<le> 5 \<longrightarrow> getRoutingWeight g lat lng = 5)
   \<and> (6 \<le> getPopulation g lat lng \<and> getPopulation g lat lng \<le> 9 \<longrightarrow> getRoutingWeight g lat lng = 10)
   \<and> (10 \<le> getPopulation g lat lng \<longrightarrow> getRoutingWeight g lat lng = 20)
   \<and> (0 \<le> getPopulation g lat lng \<and> getPopulation g lat lng \<le> getPopulation g' lat' lng'
        \<longrightarrow> getRoutingWeight g lat lng \<le> getRoutingWeight g' lat' lng')"
  by (simp add: getRoutingWeight_def Let_def)

text \<open>Claim C3, witness: one population in each of the five ranges.\<close>

theorem getRoutingWeight_breakpoints_witness:
  "getPopulation newGrid 0 0 = 0 \<and> getRoutingWeight newGrid 0 0 = 1
   \<and> getPopulation (run [AddPerson 0 0 2]) 0 0 = 2 \<and> getRoutingWeight (run [AddPerson 0 0 2]) 0 0 = 2
   \<and> getPopulation (run [AddPerson 0 0 4]) 0 0 = 4 \<and> getRoutingWeight (run [AddPerson 0 0 4]) 0 0 = 5
   \<and> getPopulation (run [AddPerson 0 0 7]) 0 0 = 7 \<and> getRoutingWeight (run [AddPerson 0 0 7]) 0 0 = 10
   \<and> getPopulation (run [AddPerson 0 0 12]) 0 0 = 12 \<and> getRoutingWeight (run [AddPerson 0 0 12]) 0 0 = 20
   \<and> getRoutingWeight (run [AddPerson 0 0 4]) 0 0 \<le> getRoutingWeight (run [AddPerson 0 0 12]) 0 0"
  using getRoutingWeight_breakpoints [of newGrid 0 0 newGrid 0 0]
    getRoutingWeight_breakpoints [of "run [AddPerson 0 0 2]" 0 0 newGrid 0 0]
    getRoutingWeight_breakpoints [of "run [AddPerson 0 0 4]" 0 0 "run [AddPerson 0 0 12]" 0 0]
    getRoutingWeight_breakpoints [of "run [AddPerson 0 0 7]" 0 0 newGrid 0 0]
    getRoutingWeight_breakpoints [of "run [AddPerson 0 0 12]" 0 0 newGrid 0 0]
  by (simp add: run_def getPopulation_addPerson getPopulation_newGrid)

subsection \<open>The crowd zones over exact reals\<close>

text \<open>Over exact reals every history of mutations leaves one zone for each cell of population at
  least 3; the example grids below are evaluated with this.\<close>

lemma weight_of_cell:
  assumes "cells_ok (populations g)" and "(k, p) \<in> set (populations g)" and "3 \<le> p"
  shows "getRoutingWeight g (fst k) (snd k) = spec_weight p"
proof -
  from assms(1,2) have key: "getGridKey (fst k) (snd k) = k"
    unfolding cells_ok_def by force
  from assms(1,2) have "get_or_zero (populations g) k = p"
    unfolding cells_ok_def by (simp add: get_or_zero_cell)
  then have "getPopulation g (fst k) (snd k) = p"
    by (simp add: getPopulation_def key)
  with assms(3) show ?thesis
    by (simp add: getRoutingWeight_def spec_weight_def Let_def)
qed

lemma zones_of_cells:
  assumes "\<And>k p. (k, p) \<in> set m \<Longrightarrow> 3 \<le> p \<Longrightarrow> getRoutingWeight g (fst k) (snd k) = spec_weight p"
  shows "[\<lparr>center = (area_lat a, area_lng a),
           radius = max 0.001 (of_int (area_population a) * 0.0003),
           population = area_population a,
           weight = getRoutingWeight g (area_lat a) (area_lng a)\<rparr>.
          a \<leftarrow> [\<lparr>area_lat = fst k, area_lng = snd k, area_population = p\<rparr>. (k, p) \<leftarrow> m, p > 0],
          area_population a \<ge> 3] = spec_zones m"
  using assms
proof (induction m)
  case Nil
  show ?case by (simp add: spec_zones_def)
next
  case (Cons x m)
  obtain k p where x: "x = (k, p)" by (cases x)
  have ih: "[\<lparr>center = (area_lat a, area_lng a),
           radius = max 0.001 (of_int (area_population a) * 0.0003),
           population = area_population a,
           weight = getRoutingWeight g (area_lat a) (area_lng a)\<rparr>.
          a \<leftarrow> [\<lparr>area_lat = fst k, area_lng = snd k, area_population = p\<rparr>. (k, p) \<leftarrow> m, p > 0],
          area_population a \<ge> 3] = spec_zones m"
    by (rule Cons.IH) (simp add: Cons.prems)
  have w: "3 \<le> p \<Longrightarrow> getRoutingWeight g (fst k) (snd k) = spec_weight p"
    by (rule Cons.prems) (simp_all add: x)
  show ?case
    using ih w by (simp add: x spec_zones_def spec_zone_def)
qed

lemma crowdZones_updateCrowdZones:
  "cells_ok (populations g) \<Longrightarrow> crowdZones (updateCrowdZones g) = spec_zones (populations g)"
  unfolding updateCrowdZones_def getPopulatedAreas_def
  using zones_of_cells [of "populations g" g] weight_of_cell [of g]
  by simp

lemma cells_ok_mutate: "cells_ok (populations g) \<Longrightarrow> cells_ok (populations (mutate g m))"
  by (cases m) (simp_all add: populations_addPerson cells_ok_map_set clearAll_def cells_ok_def [of "[]"])

lemma cells_ok_foldl:
  "cells_ok (populations g) \<Longrightarrow> cells_ok (populations (foldl mutate g ms))"
  by (induction ms arbitrary: g) (simp_all add: cells_ok_mutate)

lemma cells_ok_run: "cells_ok (populations (run ms))"
  unfolding run_def by (rule cells_ok_foldl) (simp add: newGrid_def cells_ok_def)

lemma crowdZones_mutate:
  "cells_ok (populations g) \<Longrightarrow> crowdZones (mutate g m) = spec_zones (populations (mutate g m))"
proof (cases m)
  case (AddPerson a b c)
  assume ok: "cells_ok (populations g)"
  let ?g' = "g\<lparr>populations := map_set (populations g) (getGridKey a b) (get_or_zero (populations g) (getGridKey a b) + c)\<rparr>"
  have "cells_ok (populations ?g')" using ok by (simp add: cells_ok_map_set)
  then have "crowdZones (updateCrowdZones ?g') = spec_zones (populations ?g')"
    by (rule crowdZones_updateCrowdZones)
  then show ?thesis
    by (simp add: AddPerson addPerson_def Let_def populations_updateCrowdZones)
next
  case ClearAll
  then show ?thesis by (simp add: clearAll_def spec_zones_def)
qed

lemma crowdZones_run: "crowdZones (run ms) = spec_zones (populations (run ms))"
proof (cases ms rule: rev_cases)
  case Nil
  then show ?thesis by (simp add: run_def newGrid_def spec_zones_def)
next
  case (snoc ms' m)
  have "cells_ok (populations (run ms'))" by (rule cells_ok_run)
  then have "crowdZones (mutate (run ms') m) = spec_zones (populations (mutate (run ms') m))"
    by (rule crowdZones_mutate)
  then show ?thesis by (simp add: snoc run_def)
qed

subsection \<open>The weight of a zone in binary64\<close>

text \<open>The value of \<open>double\<close> inside a binade, and the values on the path of one click.\<close>

lemma two_powr_neg: "(2::real) powr (- real n) = 1 / 2 ^ n"
  by (simp add: powr_minus powr_realpow divide_simps)

lemma two_powr_neg_succ: "(2::real) powr (1 - real n) = 2 / 2 ^ n"
proof -
  have "(2::real) powr (1 - real n) = 2 powr 1 / 2 powr (real n)" by (rule powr_diff)
  then show ?thesis by (simp add: powr_realpow)
qed

lemma double_binade_neg:
  assumes "1 / 2 ^ n \<le> \<bar>x\<bar>" and "\<bar>x\<bar> < 2 / 2 ^ n"
  shows "double x = of_int (round_even (x * 2 ^ (n + 52))) / 2 ^ (n + 52)"
proof -
  have "(0::real) < 1 / 2 ^ n" by simp
  with assms(1) have pos: "0 < \<bar>x\<bar>" by linarith
  have lo: "2 powr (real_of_int (- int n)) \<le> \<bar>x\<bar>"
    using assms(1) by (simp add: two_powr_neg)
  have "real_of_int (- int n + 1) = 1 - real n" by simp
  then have hi: "\<bar>x\<bar> < 2 powr (real_of_int (- int n + 1))"
    using assms(2) by (simp only: two_powr_neg_succ)
  have fl: "\<lfloor>log 2 \<bar>x\<bar>\<rfloor> = - int n"
    using pos lo hi by (subst floor_log_eq_powr_iff) simp_all
  have "real_of_int (- int n) - 52 = - real (n + 52)" by simp
  then have ulp: "(2::real) powr (real_of_int (- int n) - 52) = 1 / 2 ^ (n + 52)"
    by (simp only: two_powr_neg)
  from pos have "x \<noteq> 0" by auto
  then show ?thesis
    unfolding double_def Let_def fl ulp by simp
qed

lemma double_binade_pos:
  assumes "2 ^ n \<le> \<bar>x\<bar>" and "\<bar>x\<bar> < 2 * 2 ^ n" and "n \<le> 52"
  shows "double x = of_int (round_even (x * 2 ^ (52 - n))) / 2 ^ (52 - n)"
proof -
  have "(0::real) < 2 ^ n" by simp
  with assms(1) have pos: "0 < \<bar>x\<bar>" by linarith
  have lo: "2 powr (real_of_int (int n)) \<le> \<bar>x\<bar>"
    using assms(1) by (simp add: powr_realpow)
  have hi: "\<bar>x\<bar> < 2 powr (real_of_int (int n + 1))"
    using assms(2) by (simp add: powr_add powr_realpow mult.commute)
  have fl: "\<lfloor>log 2 \<bar>x\<bar>\<rfloor> = int n"
    using pos lo hi by (subst floor_log_eq_powr_iff) simp_all
  have "real_of_int (int n) - 52 = - real (52 - n)" using assms(3) by simp
  then have ulp: "(2::real) powr (real_of_int (int n) - 52) = 1 / 2 ^ (52 - n)"
    by (simp only: two_powr_neg)
  from pos have "x \<noteq> 0" by auto
  then show ?thesis
    unfolding double_def Let_def fl ulp by simp
qed

lemma gridSize_ieee_value: "gridSize_ieee = 1152921504606847 / 2 ^ 61"
proof -
  have "double 0.0005 = of_int (round_even (0.0005 * 2 ^ (11 + 52))) / 2 ^ (11 + 52)"
    by (rule double_binade_neg) simp_all
  then show ?thesis
    unfolding gridSize_ieee_def by (simp add: round_even_def)
qed

lemma double_zero: "double 0 = 0"
  by (simp add: double_def)

lemma click_lat_value: "double 1.0007 = 4506752147109655 / 2 ^ 52"
proof -
  have "double 1.0007 = of_int (round_even (1.0007 * 2 ^ (52 - 0))) / 2 ^ (52 - 0)"
    by (rule double_binade_pos) simp_all
  then show ?thesis by (simp add: round_even_def)
qed

lemma click_cell_index:
  "\<lfloor>double (4506752147109655 / 2 ^ 52 / (1152921504606847 / 2 ^ 61))\<rfloor> = 2001"
proof -
  let ?q = "4506752147109655 / 2 ^ 52 / (1152921504606847 / 2 ^ 61) :: real"
  have "double ?q = of_int (round_even (?q * 2 ^ (52 - 10))) / 2 ^ (52 - 10)"
    by (rule double_binade_pos) simp_all
  then have v: "double ?q = 8802250287323545 / 2 ^ 42"
    by (simp add: round_even_def)
  show ?thesis unfolding v by simp
qed

lemma click_cell_lat: "double (2001 * (1152921504606847 / 2 ^ 61)) = 4505851427184181 / 2 ^ 52"
proof -
  let ?p = "2001 * (1152921504606847 / 2 ^ 61) :: real"
  have "double ?p = of_int (round_even (?p * 2 ^ (52 - 0))) / 2 ^ (52 - 0)"
    by (rule double_binade_pos) simp_all
  then show ?thesis by (simp add: round_even_def)
qed

lemma stored_cell_index:
  "\<lfloor>double (4505851427184181 / 2 ^ 52 / (1152921504606847 / 2 ^ 61))\<rfloor> = 2000"
proof -
  let ?q = "4505851427184181 / 2 ^ 52 / (1152921504606847 / 2 ^ 61) :: real"
  have "double ?q = of_int (round_even (?q * 2 ^ (52 - 10))) / 2 ^ (52 - 10)"
    by (rule double_binade_pos) simp_all
  then have v: "double ?q = 8800491068719103 / 2 ^ 42"
    by (simp add: round_even_def)
  show ?thesis unfolding v by simp
qed

lemma neighbour_cell_lat: "double (2000 * (1152921504606847 / 2 ^ 61)) = 1"
proof -
  let ?p = "2000 * (1152921504606847 / 2 ^ 61) :: real"
  have "double ?p = of_int (round_even (?p * 2 ^ (52 - 0))) / 2 ^ (52 - 0)"
    by (rule double_binade_pos) simp_all
  then show ?thesis by (simp add: round_even_def)
qed

lemma getGridKey_ieee_click: "getGridKey_ieee (double 1.0007) 0 = (4505851427184181 / 2 ^ 52, 0)"
proof -
  have "double (of_int \<lfloor>double (4506752147109655 / 2 ^ 52 / (1152921504606847 / 2 ^ 61))\<rfloor>
                  * (1152921504606847 / 2 ^ 61)) = 4505851427184181 / 2 ^ 52"
    unfolding click_cell_index using click_cell_lat by simp
  moreover have "double (of_int \<lfloor>double (0 / (1152921504606847 / 2 ^ 61))\<rfloor>
                  * (1152921504606847 / 2 ^ 61)) = 0"
    by (simp add: double_zero)
  ultimately show ?thesis
    unfolding getGridKey_ieee_def Let_def click_lat_value gridSize_ieee_value by (simp only:)
qed

lemma getGridKey_ieee_stored: "getGridKey_ieee (4505851427184181 / 2 ^ 52) 0 = (1, 0)"
proof -
  have "double (of_int \<lfloor>double (4505851427184181 / 2 ^ 52 / (1152921504606847 / 2 ^ 61))\<rfloor>
                  * (1152921504606847 / 2 ^ 61)) = 1"
    unfolding stored_cell_index using neighbour_cell_lat by simp
  moreover have "double (of_int \<lfloor>double (0 / (1152921504606847 / 2 ^ 61))\<rfloor>
                  * (1152921504606847 / 2 ^ 61)) = 0"
    by (simp add: double_zero)
  ultimately show ?thesis
    unfolding getGridKey_ieee_def Let_def gridSize_ieee_value by (simp only:)
qed

text \<open>Claim C4, failing input: \<open>addPerson(1.0007, 0, 5)\<close> on a new grid, in binary64. The
  click falls in cell 2001 and is stored under the latitude \<open>2001 * 0.0005\<close>, rounded.
  Quantizing this stored latitude again gives cell 2000, latitude 1. So the routing weight
  at the click is 5, while the zone of the cell has population 5 and weight 1: its weight
  is read from the empty neighbouring cell.\<close>

theorem zone_weight_read_from_neighbour_cell:
  "getGridKey_ieee (double 1.0007) 0 = (4505851427184181 / 2 ^ 52, 0)
   \<and> getGridKey_ieee (4505851427184181 / 2 ^ 52) 0 = (1, 0)
   \<and> getRoutingWeight_ieee (snd (addPerson_ieee newGrid (double 1.0007) 0 5)) (double 1.0007) 0 = 5
   \<and> map (\<lambda>z. (center z, population z, weight z))
          (crowdZones (snd (addPerson_ieee newGrid (double 1.0007) 0 5)))
       = [((4505851427184181 / 2 ^ 52, 0), 5, 1)]"
proof -
  let ?k = "(4505851427184181 / 2 ^ 52, 0) :: point"
  have ne: "?k \<noteq> (1, 0)" by simp
  have a: "addPerson_ieee newGrid (double 1.0007) 0 5
      = (5, updateCrowdZones_ieee \<lparr>populations = [(?k, 5)], crowdZones = []\<rparr>)"
    unfolding addPerson_ieee_def Let_def getGridKey_ieee_click
    by (simp add: newGrid_def get_or_zero_def map_get_def)
  have p: "populations (snd (addPerson_ieee newGrid (double 1.0007) 0 5)) = [(?k, 5)]"
    unfolding a by (simp add: updateCrowdZones_ieee_def)
  have w: "getRoutingWeight_ieee (snd (addPerson_ieee newGrid (double 1.0007) 0 5)) (double 1.0007) 0 = 5"
    unfolding getRoutingWeight_ieee_def getPopulation_ieee_def p getGridKey_ieee_click Let_def
    by (simp add: get_or_zero_def map_get_def)
  have n: "getRoutingWeight_ieee \<lparr>populations = [(?k, 5)], crowdZones = []\<rparr> (fst ?k) (snd ?k) = 1"
    unfolding getRoutingWeight_ieee_def getPopulation_ieee_def Let_def fst_conv snd_conv
      getGridKey_ieee_stored
    using ne by (simp add: get_or_zero_def map_get_def)
  have z: "map (\<lambda>z. (center z, population z, weight z))
          (crowdZones (snd (addPerson_ieee newGrid (double 1.0007) 0 5))) = [(?k, 5, 1)]"
    unfolding a using n by (simp add: updateCrowdZones_ieee_def getPopulatedAreas_def)
  from getGridKey_ieee_click getGridKey_ieee_stored w z show ?thesis by simp
qed

subsection \<open>The intersection report: totals\<close>

lemma zoneStep_total:
  "r \<noteq> [] \<Longrightarrow> fst (zoneStep r (Num a, w) z)
     = Num (a + real (countPoints r z) / real (length r) * of_int (weight z))"
  by (simp add: Let_def)

lemma foldl_zoneStep_total:
  "r \<noteq> [] \<Longrightarrow> fst (foldl (zoneStep r) (Num a, w) zones) = Num (a + ratioSum r zones)"
proof (induction zones arbitrary: a w)
  case Nil
  show ?case by (simp add: ratioSum_def)
next
  case (Cons z zs)
  obtain a' w' where st: "zoneStep r (Num a, w) z = (a', w')" by (cases "zoneStep r (Num a, w) z")
  with zoneStep_total [OF Cons.prems, of a w z]
  have a': "a' = Num (a + real (countPoints r z) / real (length r) * of_int (weight z))" by simp
  have "fst (foldl (zoneStep r) (Num a, w) (z # zs)) = fst (foldl (zoneStep r) (a', w') zs)"
    by (simp only: foldl.simps st)
  also have "\<dots> = Num (a + real (countPoints r z) / real (length r) * of_int (weight z) + ratioSum r zs)"
    unfolding a' by (rule Cons.IH [OF Cons.prems])
  finally show ?case by (simp add: ratioSum_def add.assoc)
qed

lemma totalIntersection_eq:
  "totalIntersection (analyzeCrowdIntersections r zones) = fst (foldl (zoneStep r) (Num 0, None) zones)"
  by (simp add: analyzeCrowdIntersections_def split_beta Let_def)

lemma averageIntersection_eq:
  "averageIntersection (analyzeCrowdIntersections r zones)
     = js_or_zero (js_div (totalIntersection (analyzeCrowdIntersections r zones)) (Num (real (length zones))))"
  by (simp add: analyzeCrowdIntersections_def split_beta Let_def)

lemma worstZone_eq:
  "worstZone (analyzeCrowdIntersections r zones) = snd (foldl (zoneStep r) (Num 0, None) zones)"
  by (simp add: analyzeCrowdIntersections_def split_beta Let_def)

lemma total_nonempty:
  "r \<noteq> [] \<Longrightarrow> totalIntersection (analyzeCrowdIntersections r zones) = Num (ratioSum r zones)"
  using foldl_zoneStep_total [of r 0 None zones] by (simp add: totalIntersection_eq)

lemma average_nonempty:
  "r \<noteq> [] \<Longrightarrow> zones \<noteq> [] \<Longrightarrow>
     averageIntersection (analyzeCrowdIntersections r zones) = Num (ratioSum r zones / real (length zones))"
  by (simp add: averageIntersection_eq total_nonempty js_or_zero_def)

lemma analyze_no_zones:
  "analyzeCrowdIntersections r [] = \<lparr>totalIntersection = Num 0, worstZone = None, averageIntersection = Num 0\<rparr>"
  by (simp add: analyzeCrowdIntersections_def js_or_zero_def inf_of_sign_def)

text \<open>On every route that is not empty \<open>totalIntersection\<close> is the sum over the zones of
  the number of route points within distance \<open>radius\<close> of the center, divided by the route
  length, times the weight; for a zone list that is not empty \<open>averageIntersection\<close> is that
  sum divided by the number of zones. On the empty zone list the report is 0, none, 0 for
  every route. One zone of weight 20 holding 5 points of a 10-point route gives 10.\<close>

theorem report_on_nonempty_route:
  "(r \<noteq> [] \<longrightarrow> totalIntersection (analyzeCrowdIntersections r zones)
        = Num (\<Sum>z\<leftarrow>zones. real (countPoints r z) / real (length r) * of_int (weight z)))
   \<and> (r \<noteq> [] \<and> zones \<noteq> [] \<longrightarrow> averageIntersection (analyzeCrowdIntersections r zones)
        = Num ((\<Sum>z\<leftarrow>zones. real (countPoints r z) / real (length r) * of_int (weight z))
               / real (length zones)))
   \<and> analyzeCrowdIntersections r []
        = \<lparr>totalIntersection = Num 0, worstZone = None, averageIntersection = Num 0\<rparr>
   \<and> (length r = 10 \<and> countPoints r z = 5 \<and> weight z = 20
        \<longrightarrow> totalIntersection (analyzeCrowdIntersections r [z]) = Num 10)
   \<and> countPoints r z
        = length (filter (\<lambda>p. sqrt ((fst p - fst (center z))\<^sup>2 + (snd p - snd (center z))\<^sup>2) \<le> radius z) r)"
proof -
  have s: "length r = 10 \<and> countPoints r z = 5 \<and> weight z = 20
        \<longrightarrow> totalIntersection (analyzeCrowdIntersections r [z]) = Num 10"
  proof
    assume h: "length r = 10 \<and> countPoints r z = 5 \<and> weight z = 20"
    then have "r \<noteq> []" by auto
    then have "totalIntersection (analyzeCrowdIntersections r [z]) = Num (ratioSum r [z])"
      by (rule total_nonempty)
    with h show "totalIntersection (analyzeCrowdIntersections r [z]) = Num 10"
      by (simp add: ratioSum_def)
  qed
  have c: "countPoints r z
        = length (filter (\<lambda>p. sqrt ((fst p - fst (center z))\<^sup>2 + (snd p - snd (center z))\<^sup>2) \<le> radius z) r)"
    by (simp add: countPoints_def inZone_def distance_def)
  from s c show ?thesis
    using total_nonempty [of r zones] average_nonempty [of r zones] analyze_no_zones [of r]
    unfolding ratioSum_def by blast
qed

lemma countPoints_r10: "countPoints r10 z20 = 5"
  by (simp add: countPoints_def r10_def z20_def inZone_squares power2_eq_square)

text \<open>An instance: a route of ten points, five of them inside a zone of weight 20.\<close>

theorem report_on_nonempty_route_example:
  "r10 \<noteq> [] \<and> [z20] \<noteq> [] \<and> length r10 = 10 \<and> countPoints r10 z20 = 5 \<and> weight z20 = 20
   \<and> totalIntersection (analyzeCrowdIntersections r10 [z20]) = Num 10
   \<and> averageIntersection (analyzeCrowdIntersections r10 [z20]) = Num 10"
  using report_on_nonempty_route [of r10 "[z20]" z20] countPoints_r10
  by (simp add: r10_def z20_def)

text \<open>Claim C5, failing input: the empty route against one zone. The ratio
  \<open>intersectionPoints / route.length\<close> is \<open>0 / 0\<close>, so \<open>totalIntersection\<close> is \<open>NaN\<close> and
  not a sum, and \<open>averageIntersection\<close> is 0, which is not \<open>totalIntersection\<close> divided by
  the zone count.\<close>

theorem analyzeCrowdIntersections_empty_route:
  "totalIntersection (analyzeCrowdIntersections [] [z0]) = NaN
   \<and> averageIntersection (analyzeCrowdIntersections [] [z0]) = Num 0
   \<and> averageIntersection (analyzeCrowdIntersections [] [z0])
       \<noteq> js_div (totalIntersection (analyzeCrowdIntersections [] [z0])) (Num (real (length [z0])))"
  by (simp add: analyzeCrowdIntersections_def Let_def countPoints_def inf_of_sign_def js_or_zero_def)

subsection \<open>Selection of the best route\<close>

text \<open>Both reductions of the code keep the first element that no later element beats.\<close>

lemma js_lt_irrefl: "\<not> js_lt a a"
  by (cases a) simp_all

lemma js_lt_trans: "js_lt a b \<Longrightarrow> js_lt b c \<Longrightarrow> js_lt a c"
  by (cases a; cases b; cases c) simp_all

lemma js_le_Num: "js_le (Num a) (Num b) = (a \<le> b)"
  by (auto simp: js_le_def)

lemma foldl_pick:
  fixes lt :: "'k \<Rightarrow> 'k \<Rightarrow> bool" and key :: "'a \<Rightarrow> 'k"
  assumes irrefl: "\<And>a. \<not> lt a a"
    and trans: "\<And>a b c. lt a b \<Longrightarrow> lt b c \<Longrightarrow> lt a c"
  shows "\<exists>i < length (x # xs).
           foldl (\<lambda>best current. if lt (key current) (key best) then current else best) x xs = (x # xs) ! i
           \<and> (\<forall>j < length (x # xs). \<not> lt (key ((x # xs) ! j)) (key ((x # xs) ! i)))
           \<and> (\<forall>j < i. key ((x # xs) ! j) \<noteq> key ((x # xs) ! i))"
proof (induction xs rule: rev_induct)
  case Nil
  show ?case by (simp add: irrefl)
next
  case (snoc y xs)
  let ?f = "\<lambda>best current. if lt (key current) (key best) then current else best"
  let ?l = "x # xs"
  let ?b = "foldl ?f x xs"
  from snoc.IH obtain i where i: "i < length ?l" "?b = ?l ! i"
    and least: "\<forall>j < length ?l. \<not> lt (key (?l ! j)) (key (?l ! i))"
    and first: "\<forall>j < i. key (?l ! j) \<noteq> key (?l ! i)"
    by blast
  have ext: "x # xs @ [y] = ?l @ [y]" by simp
  have old: "\<And>j. j < length ?l \<Longrightarrow> (?l @ [y]) ! j = ?l ! j"
    by (simp only: nth_append if_True)
  have new: "(?l @ [y]) ! length ?l = y"
    by (simp only: nth_append_length)
  show ?case
  proof (cases "lt (key y) (key ?b)")
    case True
    then have res: "foldl ?f x (xs @ [y]) = y" by simp
    from True have T: "lt (key y) (key (?l ! i))" by (simp only: i(2))
    have a: "\<forall>j < length (?l @ [y]). \<not> lt (key ((?l @ [y]) ! j)) (key y)"
    proof (intro allI impI)
      fix j assume "j < length (?l @ [y])"
      then consider "j < length ?l" | "j = length ?l" by fastforce
      then show "\<not> lt (key ((?l @ [y]) ! j)) (key y)"
      proof cases
        case 1
        with least have "\<not> lt (key (?l ! j)) (key (?l ! i))" by blast
        with trans [OF _ T] have "\<not> lt (key (?l ! j)) (key y)" by blast
        with old [OF 1] show ?thesis by simp
      next
        case 2
        with new irrefl show ?thesis by simp
      qed
    qed
    have b: "\<forall>j < length ?l. key ((?l @ [y]) ! j) \<noteq> key y"
    proof (intro allI impI)
      fix j assume j: "j < length ?l"
      with least have "\<not> lt (key (?l ! j)) (key (?l ! i))" by blast
      with T have "key (?l ! j) \<noteq> key y" by auto
      with old [OF j] show "key ((?l @ [y]) ! j) \<noteq> key y" by simp
    qed
    have "length ?l < length (?l @ [y])" by simp
    with res a b new show ?thesis
      unfolding ext by (intro exI [of _ "length ?l"]) simp
  next
    case False
    then have res: "foldl ?f x (xs @ [y]) = ?l ! i" using i(2) by simp
    have a: "\<forall>j < length (?l @ [y]). \<not> lt (key ((?l @ [y]) ! j)) (key (?l ! i))"
    proof (intro allI impI)
      fix j assume "j < length (?l @ [y])"
      then consider "j < length ?l" | "j = length ?l" by fastforce
      then show "\<not> lt (key ((?l @ [y]) ! j)) (key (?l ! i))"
      proof cases
        case 1
        with least old [OF 1] show ?thesis by simp
      next
        case 2
        with new False i(2) show ?thesis by simp
      qed
    qed
    have b: "\<forall>j < i. key ((?l @ [y]) ! j) \<noteq> key (?l ! i)"
    proof (intro allI impI)
      fix j assume j: "j < i"
      with i(1) have "j < length ?l" by simp
      from old [OF this] first j show "key ((?l @ [y]) ! j) \<noteq> key (?l ! i)" by simp
    qed
    have "i < length (?l @ [y])" using i(1) by simp
    with res a b old [OF i(1)] show ?thesis
      unfolding ext by (intro exI [of _ i]) simp
  qed
qed

lemma selectBest_first_minimal:
  assumes "cs \<noteq> []"
  shows "\<exists>i < length cs. selectBest cs = Some (cs ! i)
     \<and> (\<forall>j < length cs. \<not> js_lt (totalIntersection (crowdIntersections (cs ! j)))
                                  (totalIntersection (crowdIntersections (cs ! i))))
     \<and> (\<forall>j < i. totalIntersection (crowdIntersections (cs ! j))
                  \<noteq> totalIntersection (crowdIntersections (cs ! i)))"
proof -
  from assms obtain x xs where cs: "cs = x # xs" by (cases cs) auto
  show ?thesis
    unfolding cs selectBest_def reduce.simps option.inject
    by (rule foldl_pick [where lt = js_lt and key = "\<lambda>c. totalIntersection (crowdIntersections c)",
          OF js_lt_irrefl js_lt_trans])
qed

text \<open>For every candidate list that is not empty the selection returns a candidate that no
  candidate beats under the comparison \<open><\<close> of the code, and the earliest one with that value
  of \<open>totalIntersection\<close>; when no \<open>totalIntersection\<close> in the list is \<open>NaN\<close> this is the
  candidate with the minimum \<open>totalIntersection\<close>, the earliest on ties. For the empty list
  the outcome is the empty route and no statistics.\<close>

theorem selectBest_first_minimal_candidate:
  "(cs \<noteq> [] \<longrightarrow>
      (\<exists>i < length cs. selectBest cs = Some (cs ! i)
         \<and> (\<forall>j < length cs. \<not> js_lt (totalIntersection (crowdIntersections (cs ! j)))
                                      (totalIntersection (crowdIntersections (cs ! i))))
         \<and> (\<forall>j < i. totalIntersection (crowdIntersections (cs ! j))
                      \<noteq> totalIntersection (crowdIntersections (cs ! i)))
         \<and> ((\<forall>c \<in> set cs. totalIntersection (crowdIntersections c) \<noteq> NaN)
              \<longrightarrow> (\<forall>c \<in> set cs. js_le (totalIntersection (crowdIntersections (cs ! i)))
                                         (totalIntersection (crowdIntersections c))))
         \<and> currentRoute (chooseRoute g cs) = route (cs ! i)
         \<and> routeInfo (chooseRoute g cs) \<noteq> None))
   \<and> selectBest [] = None
   \<and> chooseRoute g [] = \<lparr>currentRoute = [], routeInfo = None\<rparr>
   \<and> calculateRoute fetch g (Some s) (Some e) st
       = chooseRoute g (getMultipleRoutes fetch s e (crowdZones g))"
proof -
  have a: "cs \<noteq> [] \<longrightarrow>
      (\<exists>i < length cs. selectBest cs = Some (cs ! i)
         \<and> (\<forall>j < length cs. \<not> js_lt (totalIntersection (crowdIntersections (cs ! j)))
                                      (totalIntersection (crowdIntersections (cs ! i))))
         \<and> (\<forall>j < i. totalIntersection (crowdIntersections (cs ! j))
                      \<noteq> totalIntersection (crowdIntersections (cs ! i)))
         \<and> ((\<forall>c \<in> set cs. totalIntersection (crowdIntersections c) \<noteq> NaN)
              \<longrightarrow> (\<forall>c \<in> set cs. js_le (totalIntersection (crowdIntersections (cs ! i)))
                                         (totalIntersection (crowdIntersections c))))
         \<and> currentRoute (chooseRoute g cs) = route (cs ! i)
         \<and> routeInfo (chooseRoute g cs) \<noteq> None)"
  proof
    assume "cs \<noteq> []"
    from selectBest_first_minimal [OF this] obtain i where i: "i < length cs"
      "selectBest cs = Some (cs ! i)"
      "\<forall>j < length cs. \<not> js_lt (totalIntersection (crowdIntersections (cs ! j)))
                                      (totalIntersection (crowdIntersections (cs ! i)))"
      "\<forall>j < i. totalIntersection (crowdIntersections (cs ! j))
                      \<noteq> totalIntersection (crowdIntersections (cs ! i))"
      by blast
    have le: "(\<forall>c \<in> set cs. totalIntersection (crowdIntersections c) \<noteq> NaN)
              \<longrightarrow> (\<forall>c \<in> set cs. js_le (totalIntersection (crowdIntersections (cs ! i)))
                                         (totalIntersection (crowdIntersections c)))"
    proof (intro impI ballI)
      fix c assume nn: "\<forall>c \<in> set cs. totalIntersection (crowdIntersections c) \<noteq> NaN" and c: "c \<in> set cs"
      from c obtain j where j: "j < length cs" "cs ! j = c" by (auto simp: in_set_conv_nth)
      from i(1) have "cs ! i \<in> set cs" by simp
      with nn c have "totalIntersection (crowdIntersections (cs ! i)) \<noteq> NaN"
        "totalIntersection (crowdIntersections c) \<noteq> NaN" by blast+
      moreover from i(3) j have "\<not> js_lt (totalIntersection (crowdIntersections c))
                                      (totalIntersection (crowdIntersections (cs ! i)))" by blast
      ultimately show "js_le (totalIntersection (crowdIntersections (cs ! i)))
                             (totalIntersection (crowdIntersections c))"
        by (simp add: js_le_def)
    qed
    have r: "currentRoute (chooseRoute g cs) = route (cs ! i)" "routeInfo (chooseRoute g cs) \<noteq> None"
      by (simp_all add: chooseRoute_def i(2))
    from i le r show "\<exists>i < length cs. selectBest cs = Some (cs ! i)
         \<and> (\<forall>j < length cs. \<not> js_lt (totalIntersection (crowdIntersections (cs ! j)))
                                      (totalIntersection (crowdIntersections (cs ! i))))
         \<and> (\<forall>j < i. totalIntersection (crowdIntersections (cs ! j))
                      \<noteq> totalIntersection (crowdIntersections (cs ! i)))
         \<and> ((\<forall>c \<in> set cs. totalIntersection (crowdIntersections c) \<noteq> NaN)
              \<longrightarrow> (\<forall>c \<in> set cs. js_le (totalIntersection (crowdIntersections (cs ! i)))
                                         (totalIntersection (crowdIntersections c))))
         \<and> currentRoute (chooseRoute g cs) = route (cs ! i)
         \<and> routeInfo (chooseRoute g cs) \<noteq> None"
      by blast
  qed
  have b: "selectBest [] = None" by (simp add: selectBest_def)
  have c: "chooseRoute g [] = \<lparr>currentRoute = [], routeInfo = None\<rparr>"
    by (simp add: chooseRoute_def selectBest_def)
  have d: "calculateRoute fetch g (Some s) (Some e) st
       = chooseRoute g (getMultipleRoutes fetch s e (crowdZones g))"
    by (simp add: calculateRoute_def)
  from a b c d show ?thesis by blast
qed

text \<open>An instance: three candidates with totals 2, 1 and 1; the second is selected.\<close>

theorem selectBest_first_minimal_candidate_example:
  "[cand [(0, 0)] Direct 2, cand [(1, 1)] Avoidance 1, cand [(2, 2)] Alternative 1] \<noteq> []
   \<and> selectBest [cand [(0, 0)] Direct 2, cand [(1, 1)] Avoidance 1, cand [(2, 2)] Alternative 1]
        = Some (cand [(1, 1)] Avoidance 1)
   \<and> js_le (totalIntersection (crowdIntersections (cand [(1, 1)] Avoidance 1)))
            (totalIntersection (crowdIntersections (cand [(0, 0)] Direct 2)))
   \<and> js_le (totalIntersection (crowdIntersections (cand [(1, 1)] Avoidance 1)))
            (totalIntersection (crowdIntersections (cand [(2, 2)] Alternative 1)))
   \<and> currentRoute (chooseRoute newGrid
        [cand [(0, 0)] Direct 2, cand [(1, 1)] Avoidance 1, cand [(2, 2)] Alternative 1]) = [(1, 1)]"
proof -
  let ?cs = "[cand [(0, 0)] Direct 2, cand [(1, 1)] Avoidance 1, cand [(2, 2)] Alternative 1]"
  note t = selectBest_first_minimal_candidate [of ?cs newGrid]
  have ne: "?cs \<noteq> []" by simp
  have nn: "\<forall>c \<in> set ?cs. totalIntersection (crowdIntersections c) \<noteq> NaN"
    by (simp add: cand_def)
  from t ne obtain i where i: "i < length ?cs" "selectBest ?cs = Some (?cs ! i)"
    "\<forall>j < length ?cs. \<not> js_lt (totalIntersection (crowdIntersections (?cs ! j)))
                                  (totalIntersection (crowdIntersections (?cs ! i)))"
    "\<forall>j < i. totalIntersection (crowdIntersections (?cs ! j))
                      \<noteq> totalIntersection (crowdIntersections (?cs ! i))"
    "(\<forall>c \<in> set ?cs. totalIntersection (crowdIntersections c) \<noteq> NaN)
       \<longrightarrow> (\<forall>c \<in> set ?cs. js_le (totalIntersection (crowdIntersections (?cs ! i)))
                                  (totalIntersection (crowdIntersections c)))"
    "currentRoute (chooseRoute newGrid ?cs) = route (?cs ! i)"
    by blast
  from i(1) have "i = 0 \<or> i = 1 \<or> i = 2" by auto
  moreover have "i \<noteq> 0"
  proof
    assume "i = 0"
    with i(3) [THEN spec, of 1] have "\<not> js_lt (totalIntersection (crowdIntersections (?cs ! 1)))
                           (totalIntersection (crowdIntersections (?cs ! 0)))" by simp
    then show False by (simp add: cand_def)
  qed
  moreover have "i \<noteq> 2"
  proof
    assume "i = 2"
    with i(4) [THEN spec, of 1] have "totalIntersection (crowdIntersections (?cs ! 1))
                      \<noteq> totalIntersection (crowdIntersections (?cs ! 2))" by simp
    then show False by (simp add: cand_def)
  qed
  ultimately have "i = 1" by blast
  then have e: "?cs ! i = cand [(1, 1)] Avoidance 1" by simp
  from i(2) have s: "selectBest ?cs = Some (cand [(1, 1)] Avoidance 1)"
    unfolding e .
  from i(5) nn have le: "\<forall>c \<in> set ?cs. js_le (totalIntersection (crowdIntersections (cand [(1, 1)] Avoidance 1)))
                                  (totalIntersection (crowdIntersections c))"
    unfolding e by blast
  from i(6) have r: "currentRoute (chooseRoute newGrid ?cs) = [(1, 1)]"
    unfolding e by (simp add: cand_def)
  from ne s le r show ?thesis by simp
qed

text \<open>Claim C6, failing input: two candidates, the first with an empty route. Its report
  against one zone has the total \<open>NaN\<close> (the \<open>0 / 0\<close> of the empty route), every comparison
  with it is false, and it is kept as best: the selected route is the empty one,
  although the second candidate has the total 0.\<close>

theorem selectBest_keeps_NaN_candidate:
  "totalIntersection (crowdIntersections
       \<lparr>route = [], kind = Direct, crowdIntersections = analyzeCrowdIntersections [] [z0]\<rparr>) = NaN
   \<and> selectBest [\<lparr>route = [], kind = Direct, crowdIntersections = analyzeCrowdIntersections [] [z0]\<rparr>,
                  \<lparr>route = [(1, 1)], kind = Alternative,
                     crowdIntersections = analyzeCrowdIntersections [(1, 1)] [z0]\<rparr>]
       = Some \<lparr>route = [], kind = Direct, crowdIntersections = analyzeCrowdIntersections [] [z0]\<rparr>
   \<and> totalIntersection (analyzeCrowdIntersections [(1, 1)] [z0]) = Num 0
   \<and> \<not> js_le (totalIntersection (analyzeCrowdIntersections [] [z0]))
              (totalIntersection (analyzeCrowdIntersections [(1, 1)] [z0]))
   \<and> currentRoute (chooseRoute newGrid
         [\<lparr>route = [], kind = Direct, crowdIntersections = analyzeCrowdIntersections [] [z0]\<rparr>,
          \<lparr>route = [(1, 1)], kind = Alternative,
             crowdIntersections = analyzeCrowdIntersections [(1, 1)] [z0]\<rparr>]) = []"
proof -
  have a: "totalIntersection (analyzeCrowdIntersections [] [z0]) = NaN"
    by (simp add: analyzeCrowdIntersections_def Let_def countPoints_def inf_of_sign_def)
  have b: "totalIntersection (analyzeCrowdIntersections [(1, 1)] [z0]) = Num 0"
    by (simp add: analyzeCrowdIntersections_def Let_def countPoints_def z0_def inZone_squares power2_eq_square)
  from a b show ?thesis
    by (simp add: selectBest_def js_le_def chooseRoute_def)
qed

subsection \<open>Avoidance waypoints\<close>

lemma findWorstZone_first_maximal:
  assumes "zones \<noteq> []"
  shows "\<exists>i < length zones. findWorstZone zones = Some (zones ! i)
     \<and> (\<forall>j < length zones. weight (zones ! j) \<le> weight (zones ! i))
     \<and> (\<forall>j < i. weight (zones ! j) < weight (zones ! i))"
proof -
  from assms obtain x xs where zs: "zones = x # xs" by (cases zones) auto
  have "\<exists>i < length (x # xs).
           foldl (\<lambda>worst current. if weight current > weight worst then current else worst) x xs = (x # xs) ! i
           \<and> (\<forall>j < length (x # xs). \<not> weight ((x # xs) ! j) > weight ((x # xs) ! i))
           \<and> (\<forall>j < i. weight ((x # xs) ! j) \<noteq> weight ((x # xs) ! i))"
    by (rule foldl_pick [where lt = "\<lambda>a b. a > b" and key = weight]) auto
  then obtain i where i: "i < length (x # xs)"
      "foldl (\<lambda>worst current. if weight current > weight worst then current else worst) x xs = (x # xs) ! i"
      "\<forall>j < length (x # xs). \<not> weight ((x # xs) ! j) > weight ((x # xs) ! i)"
      "\<forall>j < i. weight ((x # xs) ! j) \<noteq> weight ((x # xs) ! i)"
    by blast
  have le: "\<forall>j < length (x # xs). weight ((x # xs) ! j) \<le> weight ((x # xs) ! i)"
    using i(3) by (simp add: not_less)
  have lt: "\<forall>j < i. weight ((x # xs) ! j) < weight ((x # xs) ! i)"
  proof (intro allI impI)
    fix j assume j: "j < i"
    with i(1) have "j < length (x # xs)" by simp
    with le have "weight ((x # xs) ! j) \<le> weight ((x # xs) ! i)" by blast
    moreover from i(4) j have "weight ((x # xs) ! j) \<noteq> weight ((x # xs) ! i)" by blast
    ultimately show "weight ((x # xs) ! j) < weight ((x # xs) ! i)" by simp
  qed
  from i(1) i(2) le lt show ?thesis
    unfolding zs findWorstZone_def reduce.simps option.inject by blast
qed

lemma direct_length_zero:
  "(sqrt ((fst e - fst s) * (fst e - fst s) + (snd e - snd s) * (snd e - snd s)) = 0) = (s = e)"
proof -
  have "(sqrt ((fst e - fst s) * (fst e - fst s) + (snd e - snd s) * (snd e - snd s)) = 0)
      = ((fst e - fst s) * (fst e - fst s) + (snd e - snd s) * (snd e - snd s) = 0)"
    by (rule real_sqrt_eq_zero_cancel_iff)
  also have "\<dots> = (fst e - fst s = 0 \<and> snd e - snd s = 0)"
    by (rule sum_squares_eq_zero_iff)
  also have "\<dots> = (s = e)"
    by (auto simp: prod_eq_iff)
  finally show ?thesis .
qed

lemma distance_direct:
  "distance e s = sqrt ((fst e - fst s) * (fst e - fst s) + (snd e - snd s) * (snd e - snd s))"
  by (simp add: distance_def power2_eq_square)

lemma waypoints_same: "createAvoidanceWaypoints s s z = []"
  by (simp add: createAvoidanceWaypoints_def)

lemma waypoints_distinct:
  assumes "s \<noteq> e"
  shows "createAvoidanceWaypoints s e z =
     [(fst (center z) + (- (snd e - snd s) / distance e s) * 0.002,
       snd (center z) + ((fst e - fst s) / distance e s) * 0.002),
      (fst (center z) + (- (snd e - snd s) / distance e s) * 0.004,
       snd (center z) + ((fst e - fst s) / distance e s) * 0.004),
      (fst (center z) + (- (snd e - snd s) / distance e s) * 0.006,
       snd (center z) + ((fst e - fst s) / distance e s) * 0.006)]"
proof -
  from assms have "distance e s \<noteq> 0"
    unfolding distance_direct by (simp only: direct_length_zero) simp
  then show ?thesis
    unfolding createAvoidanceWaypoints_def distance_direct Let_def by simp
qed

lemma perpendicular_unit:
  assumes "s \<noteq> e"
  shows "(- (snd e - snd s) / distance e s)\<^sup>2 + ((fst e - fst s) / distance e s)\<^sup>2 = 1"
    and "(- (snd e - snd s) / distance e s) * (fst e - fst s)
         + ((fst e - fst s) / distance e s) * (snd e - snd s) = 0"
proof -
  let ?dx = "fst e - fst s" and ?dy = "snd e - snd s"
  from assms have nz: "distance e s \<noteq> 0"
    unfolding distance_direct by (simp only: direct_length_zero) simp
  have sq: "(distance e s)\<^sup>2 = ?dx\<^sup>2 + ?dy\<^sup>2"
    unfolding distance_def by simp
  have "(- ?dy)\<^sup>2 = ?dy\<^sup>2" by (rule power2_minus)
  then have "(- ?dy / distance e s)\<^sup>2 + (?dx / distance e s)\<^sup>2 = (?dx\<^sup>2 + ?dy\<^sup>2) / (distance e s)\<^sup>2"
    by (simp only: power_divide add_divide_distrib add.commute)
  also have "\<dots> = (distance e s)\<^sup>2 / (distance e s)\<^sup>2" by (simp only: sq)
  also have "\<dots> = 1" using nz by simp
  finally show "(- ?dy / distance e s)\<^sup>2 + (?dx / distance e s)\<^sup>2 = 1" .
  have "(- ?dy / distance e s) * ?dx + (?dx / distance e s) * ?dy
      = (- ?dy * ?dx + ?dx * ?dy) / distance e s"
    by (simp only: times_divide_eq_left add_divide_distrib)
  also have "- ?dy * ?dx + ?dx * ?dy = 0" by (simp add: algebra_simps)
  finally show "(- ?dy / distance e s) * ?dx + (?dx / distance e s) * ?dy = 0" by simp
qed

lemma getAvoidanceRoute_request:
  "findWorstZone zones = Some w \<Longrightarrow>
     getAvoidanceRoute fetch s e zones =
       (case fetch (toProvider ([s] @ createAvoidanceWaypoints s e w @ [e])) False of
          None \<Rightarrow> None
        | Some data \<Rightarrow>
            if code data \<noteq> ''Ok'' then None
            else (case routes data of [] \<Rightarrow> None | r0 # rest \<Rightarrow> Some (fromProvider r0)))"
  by (simp add: getAvoidanceRoute_def)

text \<open>Claim C7. \<open>createAvoidanceWaypoints\<close> returns no waypoint when start equals end, and
  otherwise exactly three: the zone center moved by 0.002, 0.004 and 0.006 along
  \<open>(-dy, dx) / length\<close>, a unit vector perpendicular to the line from start to end.
  \<open>getAvoidanceRoute\<close> picks the first zone of maximum weight and requests the route
  through start, the waypoints computed from that zone, and end.\<close>

theorem createAvoidanceWaypoints_offsets:
  "createAvoidanceWaypoints s s z = []
   \<and> (s \<noteq> e \<longrightarrow>
        (\<exists>ux uy. createAvoidanceWaypoints s e z =
             [(fst (center z) + ux * 0.002, snd (center z) + uy * 0.002),
              (fst (center z) + ux * 0.004, snd (center z) + uy * 0.004),
              (fst (center z) + ux * 0.006, snd (center z) + uy * 0.006)]
           \<and> ux = - (snd e - snd s) / distance e s
           \<and> uy = (fst e - fst s) / distance e s
           \<and> ux\<^sup>2 + uy\<^sup>2 = 1
           \<and> ux * (fst e - fst s) + uy * (snd e - snd s) = 0))
   \<and> (zones \<noteq> [] \<longrightarrow>
        (\<exists>i < length zones. findWorstZone zones = Some (zones ! i)
           \<and> (\<forall>j < length zones. weight (zones ! j) \<le> weight (zones ! i))
           \<and> (\<forall>j < i. weight (zones ! j) < weight (zones ! i))
           \<and> getAvoidanceRoute fetch s e zones =
               (case fetch (toProvider ([s] @ createAvoidanceWaypoints s e (zones ! i) @ [e])) False of
                  None \<Rightarrow> None
                | Some data \<Rightarrow>
                    if code data \<noteq> ''Ok'' then None
                    else (case routes data of [] \<Rightarrow> None | r0 # rest \<Rightarrow> Some (fromProvider r0)))))"
proof -
  have b: "s \<noteq> e \<longrightarrow>
        (\<exists>ux uy. createAvoidanceWaypoints s e z =
             [(fst (center z) + ux * 0.002, snd (center z) + uy * 0.002),
              (fst (center z) + ux * 0.004, snd (center z) + uy * 0.004),
              (fst (center z) + ux * 0.006, snd (center z) + uy * 0.006)]
           \<and> ux = - (snd e - snd s) / distance e s
           \<and> uy = (fst e - fst s) / distance e s
           \<and> ux\<^sup>2 + uy\<^sup>2 = 1
           \<and> ux * (fst e - fst s) + uy * (snd e - snd s) = 0)"
  proof
    assume ne: "s \<noteq> e"
    from waypoints_distinct [OF ne, of z] perpendicular_unit [OF ne]
    show "\<exists>ux uy. createAvoidanceWaypoints s e z =
             [(fst (center z) + ux * 0.002, snd (center z) + uy * 0.002),
              (fst (center z) + ux * 0.004, snd (center z) + uy * 0.004),
              (fst (center z) + ux * 0.006, snd (center z) + uy * 0.006)]
           \<and> ux = - (snd e - snd s) / distance e s
           \<and> uy = (fst e - fst s) / distance e s
           \<and> ux\<^sup>2 + uy\<^sup>2 = 1
           \<and> ux * (fst e - fst s) + uy * (snd e - snd s) = 0"
      by blast
  qed
  have c: "zones \<noteq> [] \<longrightarrow>
        (\<exists>i < length zones. findWorstZone zones = Some (zones ! i)
           \<and> (\<forall>j < length zones. weight (zones ! j) \<le> weight (zones ! i))
           \<and> (\<forall>j < i. weight (zones ! j) < weight (zones ! i))
           \<and> getAvoidanceRoute fetch s e zones =
               (case fetch (toProvider ([s] @ createAvoidanceWaypoints s e (zones ! i) @ [e])) False of
                  None \<Rightarrow> None
                | Some data \<Rightarrow>
                    if code data \<noteq> ''Ok'' then None
                    else (case routes data of [] \<Rightarrow> None | r0 # rest \<Rightarrow> Some (fromProvider r0))))"
  proof
    assume "zones \<noteq> []"
    from findWorstZone_first_maximal [OF this] obtain i where i: "i < length zones"
      "findWorstZone zones = Some (zones ! i)"
      "\<forall>j < length zones. weight (zones ! j) \<le> weight (zones ! i)"
      "\<forall>j < i. weight (zones ! j) < weight (zones ! i)"
      by blast
    from getAvoidanceRoute_request [OF i(2), of fetch s e] i
    show "\<exists>i < length zones. findWorstZone zones = Some (zones ! i)
           \<and> (\<forall>j < length zones. weight (zones ! j) \<le> weight (zones ! i))
           \<and> (\<forall>j < i. weight (zones ! j) < weight (zones ! i))
           \<and> getAvoidanceRoute fetch s e zones =
               (case fetch (toProvider ([s] @ createAvoidanceWaypoints s e (zones ! i) @ [e])) False of
                  None \<Rightarrow> None
                | Some data \<Rightarrow>
                    if code data \<noteq> ''Ok'' then None
                    else (case routes data of [] \<Rightarrow> None | r0 # rest \<Rightarrow> Some (fromProvider r0)))"
      by blast
  qed
  from waypoints_same [of s z] b c show ?thesis by blast
qed

text \<open>Claim C7, witness: the line from (0, 0) to (0, 1) and three zones of weights 5, 20, 20
  with different centers; the request holds the waypoints of the second zone.\<close>

theorem createAvoidanceWaypoints_offsets_witness:
  "(0, 0) \<noteq> ((0, 1) :: point) \<and> [z0, zA, zB] \<noteq> []
   \<and> createAvoidanceWaypoints (0, 0) (0, 0) zA = []
   \<and> createAvoidanceWaypoints (0, 0) (0, 1) zA = [(- 0.0015, 0), (- 0.0035, 0), (- 0.0055, 0)]
   \<and> findWorstZone [z0, zA, zB] = Some zA
   \<and> weight z0 < weight zA \<and> weight zB = weight zA
   \<and> getAvoidanceRoute echoProvider (0, 0) (0, 1) [z0, zA, zB]
       = Some [(0, 0), (- 0.0015, 0), (- 0.0035, 0), (- 0.0055, 0), (0, 1)]"
proof -
  note t = createAvoidanceWaypoints_offsets [of "(0, 0)" zA "(0, 1)" "[z0, zA, zB]" echoProvider]
  have ne: "(0, 0) \<noteq> ((0, 1) :: point)" by simp
  have nz: "[z0, zA, zB] \<noteq> []" by simp
  have d: "distance (0, 1) (0, 0) = 1" by (simp add: distance_def)
  from t have em: "createAvoidanceWaypoints (0, 0) (0, 0) zA = []" by blast
  from t ne obtain ux uy where u: "createAvoidanceWaypoints (0, 0) (0, 1) zA =
             [(fst (center zA) + ux * 0.002, snd (center zA) + uy * 0.002),
              (fst (center zA) + ux * 0.004, snd (center zA) + uy * 0.004),
              (fst (center zA) + ux * 0.006, snd (center zA) + uy * 0.006)]"
      "ux = - (snd ((0, 1) :: point) - snd ((0, 0) :: point)) / distance (0, 1) (0, 0)"
      "uy = (fst ((0, 1) :: point) - fst ((0, 0) :: point)) / distance (0, 1) (0, 0)"
    by blast
  have w: "createAvoidanceWaypoints (0, 0) (0, 1) zA = [(- 0.0015, 0), (- 0.0035, 0), (- 0.0055, 0)]"
    unfolding u by (simp add: d zA_def)
  from t nz obtain i where i: "i < length [z0, zA, zB]"
      "findWorstZone [z0, zA, zB] = Some ([z0, zA, zB] ! i)"
      "\<forall>j < length [z0, zA, zB]. weight ([z0, zA, zB] ! j) \<le> weight ([z0, zA, zB] ! i)"
      "\<forall>j < i. weight ([z0, zA, zB] ! j) < weight ([z0, zA, zB] ! i)"
      "getAvoidanceRoute echoProvider (0, 0) (0, 1) [z0, zA, zB] =
         (case echoProvider (toProvider ([(0, 0)] @ createAvoidanceWaypoints (0, 0) (0, 1) ([z0, zA, zB] ! i)
                                          @ [(0, 1)])) False of
            None \<Rightarrow> None
          | Some data \<Rightarrow>
              if code data \<noteq> ''Ok'' then None
              else (case routes data of [] \<Rightarrow> None | r0 # rest \<Rightarrow> Some (fromProvider r0)))"
    by blast
  have wz: "weight z0 = 5" "weight zA = 20" "weight zB = 20"
    by (simp_all add: z0_def zA_def zB_def)
  from i(1) have "i = 0 \<or> i = 1 \<or> i = 2" by auto
  moreover have "i \<noteq> 0"
  proof
    assume "i = 0"
    with i(3) [THEN spec, of 1] have "weight ([z0, zA, zB] ! 1) \<le> weight ([z0, zA, zB] ! 0)" by simp
    with wz show False by simp
  qed
  moreover have "i \<noteq> 2"
  proof
    assume "i = 2"
    with i(4) [THEN spec, of 1] have "weight ([z0, zA, zB] ! 1) < weight ([z0, zA, zB] ! 2)" by simp
    with wz show False by simp
  qed
  ultimately have i1: "i = 1" by blast
  with i(2) have f: "findWorstZone [z0, zA, zB] = Some zA" by simp
  have "[z0, zA, zB] ! i = zA" using i1 by simp
  with i(5) have r: "getAvoidanceRoute echoProvider (0, 0) (0, 1) [z0, zA, zB]
       = Some [(0, 0), (- 0.0015, 0), (- 0.0035, 0), (- 0.0055, 0), (0, 1)]"
    by (simp add: w echoProvider_def fromProvider_toProvider [unfolded toProvider_def fromProvider_def]
          toProvider_def fromProvider_def swapCoord_def)
  from ne nz em w f wz r show ?thesis by simp
qed

subsection \<open>Coordinate order at the provider boundary\<close>

text \<open>Claim C8. Swapping a route into the provider's longitude-first order and swapping the
  provider's coordinates back are inverse to each other, and \<open>getRoadRoute\<close> returns route
  \<open>r\<close> when the provider answers with \<open>r\<close> in its own order.\<close>

theorem coordinate_order_round_trip:
  "fromProvider (toProvider r) = r
   \<and> toProvider (fromProvider cs) = cs
   \<and> (fetch (toProvider [s, e]) False = Some \<lparr>code = ''Ok'', routes = toProvider r # rest\<rparr>
        \<longrightarrow> getRoadRoute fetch s e = Some r)"
  by (simp add: fromProvider_toProvider toProvider_fromProvider getRoadRoute_def)

text \<open>Claim C8, witness: a provider that answers with the request coordinates.\<close>

theorem coordinate_order_round_trip_witness:
  "echoProvider (toProvider [(1, 2), (3, 4)]) False
     = Some \<lparr>code = ''Ok'', routes = toProvider [(1, 2), (3, 4)] # []\<rparr>
   \<and> toProvider [(1, 2), (3, 4)] = [(2, 1), (4, 3)]
   \<and> getRoadRoute echoProvider (1, 2) (3, 4) = Some [(1, 2), (3, 4)]"
  using coordinate_order_round_trip [of "[(1, 2), (3, 4)]" "[]" echoProvider "(1, 2)" "(3, 4)" "[]"]
  by (simp add: echoProvider_def toProvider_def swapCoord_def)

subsection \<open>Point in zone\<close>

lemma firstZoneContaining_None:
  "(firstZoneContaining p zs = None) = (\<forall>z \<in> set zs. \<not> inZone p z)"
  by (induction zs) auto

lemma firstZoneContaining_Some:
  "firstZoneContaining p zs = Some z \<Longrightarrow>
     \<exists>i < length zs. zs ! i = z \<and> inZone p z \<and> (\<forall>j < i. \<not> inZone p (zs ! j))"
proof (induction zs)
  case Nil
  then show ?case by simp
next
  case (Cons y ys)
  show ?case
  proof (cases "inZone p y")
    case True
    with Cons.prems have "y = z" by simp
    with True have "(y # ys) ! 0 = z \<and> inZone p z \<and> (\<forall>j < 0. \<not> inZone p ((y # ys) ! j))" by simp
    then show ?thesis by (intro exI [of _ 0]) simp
  next
    case False
    with Cons.prems have "firstZoneContaining p ys = Some z" by simp
    from Cons.IH [OF this] obtain i where i: "i < length ys" "ys ! i = z" "inZone p z"
      "\<forall>j < i. \<not> inZone p (ys ! j)" by blast
    have "\<forall>j < Suc i. \<not> inZone p ((y # ys) ! j)"
    proof (intro allI impI)
      fix j assume "j < Suc i"
      then show "\<not> inZone p ((y # ys) ! j)" using False i(4) by (cases j) simp_all
    qed
    with i show ?thesis by (intro exI [of _ "Suc i"]) simp
  qed
qed

text \<open>Claim C9. \<open>isPointInCrowdZone\<close> returns none exactly when no zone of the list has its
  center within distance \<open>radius\<close> of the point, and otherwise the first such zone in list
  order, whatever the distances of the later ones.\<close>

theorem isPointInCrowdZone_first_match:
  "(isPointInCrowdZone g p = None) = (\<forall>z \<in> set (crowdZones g). \<not> inZone p z)
   \<and> (isPointInCrowdZone g p = Some z \<longrightarrow>
        (\<exists>i < length (crowdZones g). crowdZones g ! i = z \<and> inZone p z
            \<and> (\<forall>j < i. \<not> inZone p (crowdZones g ! j))))
   \<and> inZone p z = (sqrt ((fst p - fst (center z))\<^sup>2 + (snd p - snd (center z))\<^sup>2) \<le> radius z)"
  unfolding isPointInCrowdZone_def
  using firstZoneContaining_Some [of p "crowdZones g" z]
  by (simp add: firstZoneContaining_None inZone_def distance_def)

lemma zones_g2:
  "crowdZones g2 = [\<lparr>center = (0, 0), radius = 0.003, population = 10, weight = 20\<rparr>,
                     \<lparr>center = (0.0005, 0), radius = 0.003, population = 10, weight = 20\<rparr>]"
  unfolding g2_def crowdZones_run
  by (simp add: run_def populations_addPerson getPopulation_addPerson getPopulation_newGrid populations_newGrid
      getGridKey_def gridSize_def spec_zones_def spec_zone_def spec_weight_def)

text \<open>Claim C9, witness: two overlapping zones; the point is the center of the second zone
  and the first zone is returned.\<close>

theorem isPointInCrowdZone_first_match_witness:
  "isPointInCrowdZone g2 (0.0005, 0) = Some \<lparr>center = (0, 0), radius = 0.003, population = 10, weight = 20\<rparr>
   \<and> (\<exists>i < length (crowdZones g2). crowdZones g2 ! i = \<lparr>center = (0, 0), radius = 0.003, population = 10, weight = 20\<rparr>
         \<and> (\<forall>j < i. \<not> inZone (0.0005, 0) (crowdZones g2 ! j)))
   \<and> (\<exists>z \<in> set (crowdZones g2). inZone (0.0005, 0) z
         \<and> distance (0.0005, 0) (center z) < distance (0.0005, 0) (0, 0))
   \<and> isPointInCrowdZone g2 (1, 1) = None"
proof -
  have a: "isPointInCrowdZone g2 (0.0005, 0) = Some \<lparr>center = (0, 0), radius = 0.003, population = 10, weight = 20\<rparr>"
    by (simp add: isPointInCrowdZone_def zones_g2 inZone_squares power2_eq_square)
  have b: "\<forall>z \<in> set (crowdZones g2). \<not> inZone (1, 1) z"
    by (simp add: zones_g2 inZone_squares power2_eq_square)
  have c: "\<exists>z \<in> set (crowdZones g2). inZone (0.0005, 0) z
         \<and> distance (0.0005, 0) (center z) < distance (0.0005, 0) (0, 0)"
    by (simp add: zones_g2 inZone_squares distance_def)
  note t = isPointInCrowdZone_first_match [of g2 "(0.0005, 0)" "\<lparr>center = (0, 0), radius = 0.003, population = 10, weight = 20\<rparr>"]
  have d: "\<exists>i < length (crowdZones g2). crowdZones g2 ! i = \<lparr>center = (0, 0), radius = 0.003, population = 10, weight = 20\<rparr>
         \<and> (\<forall>j < i. \<not> inZone (0.0005, 0) (crowdZones g2 ! j))"
    using t a by blast
  have e: "isPointInCrowdZone g2 (1, 1) = None"
    using isPointInCrowdZone_first_match [of g2 "(1, 1)" z0] b by blast
  from a d c e show ?thesis by blast
qed

subsection \<open>The intersection report: the worst zone\<close>

lemma zoneStep_worst_Some: "\<exists>w'. snd (zoneStep r (a, w) z) = Some w'"
  by (cases w) (simp_all add: Let_def)

lemma foldl_zoneStep_Some:
  "\<exists>w'. snd (foldl (zoneStep r) (a, Some w) zones) = Some w'"
proof (induction zones arbitrary: a w)
  case Nil
  show ?case by simp
next
  case (Cons z zs)
  obtain a' w' where st: "zoneStep r (a, Some w) z = (a', Some w')"
    using zoneStep_worst_Some [of r a "Some w" z] by (cases "zoneStep r (a, Some w) z") auto
  show ?case by (simp only: foldl.simps st Cons.IH)
qed

lemma worstZone_nonempty: "zones \<noteq> [] \<Longrightarrow> \<exists>w. worstZone (analyzeCrowdIntersections r zones) = Some w"
proof (cases zones)
  case Nil
  assume "zones \<noteq> []"
  with Nil show ?thesis by simp
next
  case (Cons z zs)
  obtain a' w' where st: "zoneStep r (Num 0, None) z = (a', Some w')"
    using zoneStep_worst_Some [of r "Num 0" None z] by (cases "zoneStep r (Num 0, None) z") auto
  show ?thesis
    unfolding worstZone_eq Cons by (simp only: foldl.simps st foldl_zoneStep_Some)
qed

lemma foldl_zoneStep_zero:
  assumes "r \<noteq> []" and "\<forall>z \<in> set zones. countPoints r z = 0"
  shows "snd (foldl (zoneStep r) (a, Some \<lparr>zone = y, intersectionRatio = Num 0, intersectionPoints = 0\<rparr>) zones)
       = Some \<lparr>zone = y, intersectionRatio = Num 0, intersectionPoints = 0\<rparr>"
  using assms(2)
proof (induction zones arbitrary: a)
  case Nil
  show ?case by simp
next
  case (Cons z zs)
  have "countPoints r z = 0" using Cons.prems by simp
  then have "snd (zoneStep r (a, Some \<lparr>zone = y, intersectionRatio = Num 0, intersectionPoints = 0\<rparr>) z)
     = Some \<lparr>zone = y, intersectionRatio = Num 0, intersectionPoints = 0\<rparr>"
    using assms(1) by (simp add: Let_def js_gt_def)
  then obtain a' where st: "zoneStep r (a, Some \<lparr>zone = y, intersectionRatio = Num 0, intersectionPoints = 0\<rparr>) z
     = (a', Some \<lparr>zone = y, intersectionRatio = Num 0, intersectionPoints = 0\<rparr>)"
    by (cases "zoneStep r (a, Some \<lparr>zone = y, intersectionRatio = Num 0, intersectionPoints = 0\<rparr>) z") auto
  have "\<forall>z \<in> set zs. countPoints r z = 0" using Cons.prems by simp
  from Cons.IH [OF this] show ?case by (simp only: foldl.simps st)
qed

lemma worstZone_no_hits:
  assumes "r \<noteq> []" and "zones \<noteq> []" and "\<forall>z \<in> set zones. countPoints r z = 0"
  shows "worstZone (analyzeCrowdIntersections r zones)
       = Some \<lparr>zone = hd zones, intersectionRatio = Num 0, intersectionPoints = 0\<rparr>"
proof -
  from assms(2) obtain z zs where zones: "zones = z # zs" by (cases zones) auto
  have "countPoints r z = 0" using assms(3) zones by simp
  then have st: "zoneStep r (Num 0, None) z
      = (Num 0, Some \<lparr>zone = z, intersectionRatio = Num 0, intersectionPoints = 0\<rparr>)"
    using assms(1) by (simp add: Let_def)
  have "\<forall>z \<in> set zs. countPoints r z = 0" using assms(3) zones by simp
  from foldl_zoneStep_zero [OF assms(1) this]
  show ?thesis unfolding worstZone_eq zones by (simp only: foldl.simps st list.sel)
qed

text \<open>For a zone list that is not empty \<open>worstZone\<close> is never none, and it is none exactly
  when the zone list is empty, for every route. When the route is not empty and no route
  point lies inside any zone, \<open>worstZone\<close> is the first zone of the list with ratio 0 and
  point count 0.\<close>

theorem worstZone_on_nonempty_route:
  "(zones \<noteq> [] \<longrightarrow> worstZone (analyzeCrowdIntersections r zones) \<noteq> None)
   \<and> (worstZone (analyzeCrowdIntersections r zones) = None) = (zones = [])
   \<and> (r \<noteq> [] \<and> zones \<noteq> [] \<and> (\<forall>z \<in> set zones. countPoints r z = 0)
        \<longrightarrow> worstZone (analyzeCrowdIntersections r zones)
            = Some \<lparr>zone = hd zones, intersectionRatio = Num 0, intersectionPoints = 0\<rparr>)"
  using worstZone_nonempty [of zones r] worstZone_no_hits [of r zones] analyze_no_zones [of r]
  by (cases "zones = []") auto

text \<open>An instance: a route of two points outside two zones.\<close>

theorem worstZone_on_nonempty_route_example:
  "[(1, 0), (0, 1)] \<noteq> ([] :: route) \<and> [z20, z0] \<noteq> []
   \<and> countPoints [(1, 0), (0, 1)] z20 = 0 \<and> countPoints [(1, 0), (0, 1)] z0 = 0
   \<and> worstZone (analyzeCrowdIntersections [(1, 0), (0, 1)] [z20, z0])
        = Some \<lparr>zone = z20, intersectionRatio = Num 0, intersectionPoints = 0\<rparr>"
  using worstZone_on_nonempty_route [of "[z20, z0]" "[(1, 0), (0, 1)]"]
  by (simp add: countPoints_def z20_def z0_def inZone_squares power2_eq_square)

text \<open>Claim C10, failing input: the empty route against one zone. No route point lies inside
  the zone, and the ratio recorded in \<open>worstZone\<close> is \<open>0 / 0 = NaN\<close>, not 0.\<close>

theorem worstZone_ratio_empty_route:
  "countPoints [] z0 = 0
   \<and> worstZone (analyzeCrowdIntersections [] [z0])
       = Some \<lparr>zone = z0, intersectionRatio = NaN, intersectionPoints = 0\<rparr>"
  by (simp add: analyzeCrowdIntersections_def Let_def countPoints_def inf_of_sign_def)

end
